theory Spec2Isabelle
  imports Main
begin

section \<open>Data model\<close>

text \<open>
  The repository holds two versions of one Telegram auction bot: \<^verbatim>\<open>src/index.js\<close> (items
  with a bid range only; called the simple variant below) and \<^verbatim>\<open>src/unnamed/part_000\<close>
  (items with a deadline and a bid direction, plus a periodic sweep; the timed variant).
  Both keep three MongoDB collections: users, items and bids.

  Amounts, durations, user ids, chat ids and times are natural numbers: the command
  patterns capture digit strings (\<^verbatim>\<open>\d+\<close>), so \<^verbatim>\<open>parseFloat\<close> and \<^verbatim>\<open>parseInt\<close> yield a
  non-negative integer and \<^verbatim>\<open>isNaN\<close> is never true; a \<^verbatim>\<open>Date\<close> is its number of
  milliseconds. (A digit string above \<open>2 ^ 53\<close> is rounded by JavaScript; the model keeps
  the exact number.)
\<close>

record user =
  userId :: nat
  chatId :: nat

record bid =
  itemId :: nat
  bid_userId :: nat
  amount :: nat
  timestamp :: nat

text \<open>
  A document field is missing, holds \<^verbatim>\<open>null\<close>, or holds a value. JavaScript treats the first
  two as falsy; MongoDB's \<^verbatim>\<open>$exists: true\<close> matches the last two.
\<close>

datatype 'a field = Missing | Null | Val 'a

datatype direction = Low | High

text \<open>
  \<open>item_id\<close> is the document's \<^verbatim>\<open>_id\<close>. Items of the simple variant have no \<^verbatim>\<open>endTime\<close>,
  \<^verbatim>\<open>bidDirection\<close> or \<^verbatim>\<open>completed\<close> field: the first two are \<open>None\<close>, and a missing
  \<^verbatim>\<open>completed\<close> is \<open>False\<close> (it is only read as \<^verbatim>\<open>!item.completed\<close> and
  \<^verbatim>\<open>completed: { $ne: true }\<close>, where \<^verbatim>\<open>undefined\<close> and \<^verbatim>\<open>false\<close> agree).
\<close>

record item =
  item_id :: nat
  name :: string
  creatorId :: nat
  lowAmount :: nat
  highAmount :: nat
  endTime :: "nat option"
  highestBid :: "bid field"
  completed :: bool
  bidDirection :: "direction option"

text \<open>
  The database. Collections are lists in natural storage order (\<^verbatim>\<open>insertOne\<close> appends,
  \<^verbatim>\<open>findOne\<close> returns the first match). \<open>nextId\<close> stands for the \<^verbatim>\<open>ObjectId\<close> generator:
  every inserted item gets an \<^verbatim>\<open>_id\<close> never used before.
\<close>

record db =
  users :: "user list"
  items :: "item list"
  bids :: "bid list"
  nextId :: nat

definition empty_db :: db where
  "empty_db = \<lparr>users = [], items = [], bids = [], nextId = 0\<rparr>"

section \<open>External services: persistence and chat transport\<close>

text \<open>
  Every call to the database driver or to the chat transport may throw. \<open>faults\<close> tells
  which calls do.
\<close>

datatype call =
    UsersFindOne nat
  | UsersInsertOne nat
  | ItemsFindOneByName string
  | ItemsFindOneById nat
  | ItemsFind
  | ItemsInsertOne string
  | ItemsUpdateOne nat
  | ItemsDeleteOne nat
  | BidsInsertOne nat
  | StartSession
  | StartTransaction
  | CommitTransaction
  | AbortTransaction
  | SendMessage nat

type_synonym faults = "call \<Rightarrow> bool"

definition no_faults :: faults where
  "no_faults = (\<lambda>c. False)"

text \<open>The chat messages of the two programs, one constructor per template.\<close>

datatype msg =
    AlreadyRegistered
    \<comment> \<open>You are already registered.\<close>
  | Registered
    \<comment> \<open>You have been successfully registered.\<close>
  | RegisterFailed
    \<comment> \<open>Failed to register. Please try again later.\<close>
  | InvalidAmounts
    \<comment> \<open>Please enter valid low and high bid amounts ...\<close>
  | NeedRegister
    \<comment> \<open>You need to register first using /register command.\<close>
  | ItemCreated string nat nat
    \<comment> \<open>Item '..' has been created for bidding with bid range $lo - $hi.\<close>
  | ItemCreatedTimed string nat nat direction nat
    \<comment> \<open>... and bid direction: d. Auction ends at t.\<close>
  | CreateFailed
    \<comment> \<open>Failed to create item. Please try again later.\<close>
  | InvalidBid
    \<comment> \<open>Please enter a valid bid amount.\<close>
  | NoSuchItem string
    \<comment> \<open>Item '..' does not exist.\<close>
  | OutOfRange nat nat
    \<comment> \<open>Your bid must be within the range $lo - $hi.\<close>
  | AuctionEnded string
    \<comment> \<open>The auction for '..' has already ended.\<close>
  | LowOnly nat
    \<comment> \<open>This item accepts bids towards low amounts only. Your bid should be less than $hi.\<close>
  | HighOnly nat
    \<comment> \<open>This item accepts bids towards high amounts only. Your bid should be more than $lo.\<close>
  | TooLow nat
    \<comment> \<open>Your bid must be higher than the current highest bid of $a.\<close>
  | Outbid string nat
    \<comment> \<open>You have been outbid on '..'. The new highest bid is $a.\<close>
  | BidPlaced nat string
    \<comment> \<open>Your bid of $a on '..' has been placed.\<close>
  | BidFailed
    \<comment> \<open>Error placing your bid. Please try again later.\<close>
  | Won string nat
    \<comment> \<open>Congratulations! You have won the auction for '..' with a bid of $a.\<close>
  | Ended string nat
    \<comment> \<open>The auction for '..' has ended. The winning bid is $a.\<close>
  | NoBiddedItems
    \<comment> \<open>No items have received bids yet.\<close>
  | BiddedItems "(string \<times> nat option \<times> nat option) list"
    \<comment> \<open>Bidded items: one line per item: name, highest bid or 'No bids yet', bid time or 'N/A'.\<close>
  | ListFailed
    \<comment> \<open>Error listing bidded items. Please try again later.\<close>

datatype logmsg =
    ErrRegister
  | ErrCreate
  | ErrBid
  | ErrList
  | ItemDeleted string
    \<comment> \<open>Item '..' has been deleted.\<close>
  | ErrFinalize string
    \<comment> \<open>Error marking item '..' as completed or deleting\<close>
  | ErrSweep
    \<comment> \<open>Error checking and finalizing auctions\<close>

text \<open>The writes the handlers issue.\<close>

datatype dbwrite =
    InsertUser user
  | InsertItem item
  | InsertBid bid
  | SetHighestBid nat bid
  | SetCompleted nat
  | DeleteItem nat

text \<open>
  What a handler does, in the order it takes effect: a call of \<^verbatim>\<open>bot.sendMessage\<close>, a line on
  the console, a write that reached the database.
\<close>

datatype event = Send nat msg | Log logmsg | Wrote dbwrite

fun update_first :: "('a \<Rightarrow> bool) \<Rightarrow> ('a \<Rightarrow> 'a) \<Rightarrow> 'a list \<Rightarrow> 'a list" where
  "update_first P f [] = []"
| "update_first P f (x # xs) = (if P x then f x # xs else x # update_first P f xs)"

fun delete_first :: "('a \<Rightarrow> bool) \<Rightarrow> 'a list \<Rightarrow> 'a list" where
  "delete_first P [] = []"
| "delete_first P (x # xs) = (if P x then xs else x # delete_first P xs)"

text \<open>
  \<^verbatim>\<open>insertOne\<close>, \<^verbatim>\<open>updateOne({ _id }, { $set: ... })\<close> and \<^verbatim>\<open>deleteOne({ _id })\<close>. Inserting an
  item assigns its \<^verbatim>\<open>_id\<close>.
\<close>

fun apply_write :: "dbwrite \<Rightarrow> db \<Rightarrow> db" where
  "apply_write (InsertUser u) d = d\<lparr>users := users d @ [u]\<rparr>"
| "apply_write (InsertItem it) d =
     d\<lparr>items := items d @ [it\<lparr>item_id := nextId d\<rparr>], nextId := Suc (nextId d)\<rparr>"
| "apply_write (InsertBid b) d = d\<lparr>bids := bids d @ [b]\<rparr>"
| "apply_write (SetHighestBid i b) d =
     d\<lparr>items := update_first (\<lambda>x. item_id x = i) (\<lambda>x. x\<lparr>highestBid := Val b\<rparr>) (items d)\<rparr>"
| "apply_write (SetCompleted i) d =
     d\<lparr>items := update_first (\<lambda>x. item_id x = i) (\<lambda>x. x\<lparr>completed := True\<rparr>) (items d)\<rparr>"
| "apply_write (DeleteItem i) d =
     d\<lparr>items := delete_first (\<lambda>x. item_id x = i) (items d)\<rparr>"

text \<open>
  A transaction: writes issued with \<^verbatim>\<open>{ session }\<close> are held back until
  \<^verbatim>\<open>commitTransaction\<close> applies them together; \<^verbatim>\<open>abortTransaction\<close> drops them.
\<close>

definition commit :: "dbwrite list \<Rightarrow> db \<Rightarrow> db" where
  "commit pending d = foldl (\<lambda>d' w. apply_write w d') d pending"

definition find_user :: "nat \<Rightarrow> db \<Rightarrow> user option" where
  "find_user uid d = List.find (\<lambda>u. userId u = uid) (users d)"

definition find_item_by_name :: "string \<Rightarrow> db \<Rightarrow> item option" where
  "find_item_by_name n d = List.find (\<lambda>x. name x = n) (items d)"

definition find_item_by_id :: "nat \<Rightarrow> db \<Rightarrow> item option" where
  "find_item_by_id i d = List.find (\<lambda>x. item_id x = i) (items d)"

section \<open>Command handlers\<close>

subsection \<open>/register (both variants)\<close>

definition register :: "faults \<Rightarrow> nat \<Rightarrow> nat \<Rightarrow> db \<Rightarrow> db \<times> event list" where
  "register fails chat uid d =
     (if fails (UsersFindOne uid) then (d, [Log ErrRegister, Send chat RegisterFailed])
      else case find_user uid d of
        Some existingUser \<Rightarrow> (d, [Send chat AlreadyRegistered])
      | None \<Rightarrow>
          if fails (UsersInsertOne uid) then (d, [Log ErrRegister, Send chat RegisterFailed])
          else let w = InsertUser \<lparr>userId = uid, chatId = chat\<rparr>
               in (apply_write w d, [Wrote w, Send chat Registered]))"

subsection \<open>/createitem\<close>

text \<open>\<^verbatim>\<open>src/index.js\<close>: \<^verbatim>\<open>/createitem name low high\<close>.\<close>

definition createitem_simple ::
  "faults \<Rightarrow> nat \<Rightarrow> nat \<Rightarrow> string \<Rightarrow> nat \<Rightarrow> nat \<Rightarrow> db \<Rightarrow> db \<times> event list" where
  "createitem_simple fails chat uid itemName lowA highA d =
     (if lowA \<le> 0 \<or> highA \<le> 0 \<or> lowA \<ge> highA then (d, [Send chat InvalidAmounts])
      else if fails (UsersFindOne uid) then (d, [Log ErrCreate, Send chat CreateFailed])
      else case find_user uid d of
        None \<Rightarrow> (d, [Send chat NeedRegister])
      | Some registeredUser \<Rightarrow>
          if fails (ItemsInsertOne itemName) then (d, [Log ErrCreate, Send chat CreateFailed])
          else let w = InsertItem \<lparr>item_id = nextId d, name = itemName, creatorId = uid,
                         lowAmount = lowA, highAmount = highA, endTime = None,
                         highestBid = Null, completed = False, bidDirection = None\<rparr>
               in (apply_write w d, [Wrote w, Send chat (ItemCreated itemName lowA highA)]))"

text \<open>\<^verbatim>\<open>src/unnamed/part_000\<close>: \<^verbatim>\<open>/createitem name low high minutes (low|high)\<close>.\<close>

definition createitem_timed ::
  "faults \<Rightarrow> nat \<Rightarrow> nat \<Rightarrow> nat \<Rightarrow> string \<Rightarrow> nat \<Rightarrow> nat \<Rightarrow> nat \<Rightarrow> direction \<Rightarrow> db
     \<Rightarrow> db \<times> event list" where
  "createitem_timed fails now chat uid itemName lowA highA auctionDurationMinutes dir d =
     (if lowA \<le> 0 \<or> highA \<le> 0 \<or> lowA \<ge> highA then (d, [Send chat InvalidAmounts])
      else let endT = now + auctionDurationMinutes * 60000 in
      if fails (UsersFindOne uid) then (d, [Log ErrCreate, Send chat CreateFailed])
      else case find_user uid d of
        None \<Rightarrow> (d, [Send chat NeedRegister])
      | Some registeredUser \<Rightarrow>
          if fails (ItemsInsertOne itemName) then (d, [Log ErrCreate, Send chat CreateFailed])
          else let w = InsertItem \<lparr>item_id = nextId d, name = itemName, creatorId = uid,
                         lowAmount = lowA, highAmount = highA, endTime = Some endT,
                         highestBid = Null, completed = False, bidDirection = Some dir\<rparr>
               in (apply_write w d,
                   [Wrote w, Send chat (ItemCreatedTimed itemName lowA highA dir endT)]))"

subsection \<open>/bid\<close>

text \<open>
  The \<^verbatim>\<open>catch\<close> blocks of the /bid handler: the transaction is aborted (nothing it wrote
  reaches the database), the error is logged and the user gets the generic message. When
  \<^verbatim>\<open>abortTransaction\<close> itself throws, the outer \<^verbatim>\<open>catch\<close> logs and sends the same two
  lines; so does an error of \<^verbatim>\<open>client.startSession()\<close>, which is outside the inner
  \<^verbatim>\<open>try\<close>. \<^verbatim>\<open>session.endSession()\<close> is not awaited.
\<close>

definition bid_caught :: "nat \<Rightarrow> db \<Rightarrow> db \<times> event list" where
  "bid_caught chat d = (d, [Log ErrBid, Send chat BidFailed])"

text \<open>
  \<^verbatim>\<open>if (itemWithLock.highestBid) { previousBidder = await usersCollection().findOne(..);
  if (previousBidder) bot.sendMessage(..) }\<close>. The lookup is awaited inside the \<^verbatim>\<open>try\<close>, so
  it may throw (\<open>None\<close>); the message is sent without \<^verbatim>\<open>await\<close>, so a failure of
  \<^verbatim>\<open>SendMessage\<close> is never seen by the handler. \<open>dest\<close> is the field the message goes to:
  \<^verbatim>\<open>previousBidder.chatId\<close> in \<^verbatim>\<open>index.js\<close>, \<^verbatim>\<open>previousBidder.userId\<close> in \<^verbatim>\<open>part_000\<close>.
\<close>

definition notify_previous ::
  "(user \<Rightarrow> nat) \<Rightarrow> faults \<Rightarrow> string \<Rightarrow> nat \<Rightarrow> item \<Rightarrow> db \<Rightarrow> event list option" where
  "notify_previous dest fails itemName bidAmount itemWithLock d =
     (case highestBid itemWithLock of
        Val prev \<Rightarrow>
          if fails (UsersFindOne (bid_userId prev)) then None
          else (case find_user (bid_userId prev) d of
                  Some previousBidder \<Rightarrow> Some [Send (dest previousBidder) (Outbid itemName bidAmount)]
                | None \<Rightarrow> Some [])
      | _ \<Rightarrow> Some [])"

text \<open>
  The body of the transaction, from \<^verbatim>\<open>session.startTransaction()\<close> on. \<open>item\<close> is the
  document the handler read before (only its \<^verbatim>\<open>_id\<close> is used); \<open>d\<close> is the database the
  transaction reads. When the item is gone, \<^verbatim>\<open>itemWithLock\<close> is \<^verbatim>\<open>null\<close> and reading
  \<^verbatim>\<open>itemWithLock.highestBid\<close> throws.
\<close>

definition bid_transaction ::
  "(user \<Rightarrow> nat) \<Rightarrow> faults \<Rightarrow> nat \<Rightarrow> nat \<Rightarrow> nat \<Rightarrow> string \<Rightarrow> nat \<Rightarrow> item \<Rightarrow> db
     \<Rightarrow> db \<times> event list" where
  "bid_transaction dest fails now chat uid itemName bidAmount item d =
     (if fails StartTransaction then bid_caught chat d
      else if fails (ItemsFindOneById (item_id item)) then bid_caught chat d
      else case find_item_by_id (item_id item) d of
        None \<Rightarrow> bid_caught chat d
      | Some itemWithLock \<Rightarrow>
          if (case highestBid itemWithLock of Val hb \<Rightarrow> bidAmount \<le> amount hb | _ \<Rightarrow> False)
          then (if fails AbortTransaction then bid_caught chat d
                else (d, [Send chat (TooLow (case highestBid itemWithLock of
                                               Val hb \<Rightarrow> amount hb | _ \<Rightarrow> 0))]))
          else
            let b = \<lparr>itemId = item_id itemWithLock, bid_userId = uid, amount = bidAmount,
                     timestamp = now\<rparr>
            in if fails (BidsInsertOne (item_id itemWithLock)) then bid_caught chat d
               else if fails (ItemsUpdateOne (item_id itemWithLock)) then bid_caught chat d
               else let pending = [InsertBid b, SetHighestBid (item_id itemWithLock) b]
               in (case notify_previous dest fails itemName bidAmount itemWithLock d of
                     None \<Rightarrow> bid_caught chat d
                   | Some sent \<Rightarrow>
                       if fails CommitTransaction
                       then (d, sent @ [Log ErrBid, Send chat BidFailed])
                       else (commit pending d,
                             sent @ map Wrote pending @ [Send chat (BidPlaced bidAmount itemName)])))"

text \<open>\<^verbatim>\<open>src/index.js\<close>: the bid must lie in the item's range.\<close>

definition bid_simple ::
  "faults \<Rightarrow> nat \<Rightarrow> nat \<Rightarrow> nat \<Rightarrow> string \<Rightarrow> nat \<Rightarrow> db \<Rightarrow> db \<times> event list" where
  "bid_simple fails now chat uid itemName bidAmount d =
     (if bidAmount \<le> 0 then (d, [Send chat InvalidBid])
      else if fails (ItemsFindOneByName itemName) then bid_caught chat d
      else case find_item_by_name itemName d of
        None \<Rightarrow> (d, [Send chat (NoSuchItem itemName)])
      | Some item \<Rightarrow>
          if bidAmount < lowAmount item \<or> bidAmount > highAmount item
          then (d, [Send chat (OutOfRange (lowAmount item) (highAmount item))])
          else if fails StartSession then bid_caught chat d
          else bid_transaction chatId fails now chat uid itemName bidAmount item d)"

text \<open>
  \<^verbatim>\<open>src/unnamed/part_000\<close>: the auction must still run, and the bid is checked against one
  bound, chosen by the item's direction.
\<close>

definition bid_timed ::
  "faults \<Rightarrow> nat \<Rightarrow> nat \<Rightarrow> nat \<Rightarrow> string \<Rightarrow> nat \<Rightarrow> db \<Rightarrow> db \<times> event list" where
  "bid_timed fails now chat uid itemName bidAmount d =
     (if bidAmount \<le> 0 then (d, [Send chat InvalidBid])
      else if fails (ItemsFindOneByName itemName) then bid_caught chat d
      else case find_item_by_name itemName d of
        None \<Rightarrow> (d, [Send chat (NoSuchItem itemName)])
      | Some item \<Rightarrow>
          if (case endTime item of Some e \<Rightarrow> e \<le> now | None \<Rightarrow> False)
          then (d, [Send chat (AuctionEnded itemName)])
          else if bidDirection item = Some Low \<and> bidAmount \<ge> highAmount item
          then (d, [Send chat (LowOnly (highAmount item))])
          else if bidDirection item = Some High \<and> bidAmount \<le> lowAmount item
          then (d, [Send chat (HighOnly (lowAmount item))])
          else if fails StartSession then bid_caught chat d
          else bid_transaction userId fails now chat uid itemName bidAmount item d)"

subsection \<open>/biddeditems (timed variant)\<close>

text \<open>
  \<^verbatim>\<open>itemsCollection().find({ highestBid: { $exists: true } })\<close>: the documents that have the
  field, whatever it holds.
\<close>

definition bidded_query :: "db \<Rightarrow> item list" where
  "bidded_query d = filter (\<lambda>x. highestBid x \<noteq> Missing) (items d)"

definition item_line :: "item \<Rightarrow> string \<times> nat option \<times> nat option" where
  "item_line x =
     (name x,
      (case highestBid x of Val b \<Rightarrow> Some (amount b) | _ \<Rightarrow> None),
      (case highestBid x of Val b \<Rightarrow> Some (timestamp b) | _ \<Rightarrow> None))"

definition biddeditems :: "faults \<Rightarrow> nat \<Rightarrow> db \<Rightarrow> db \<times> event list" where
  "biddeditems fails chat d =
     (if fails ItemsFind then (d, [Log ErrList, Send chat ListFailed])
      else let found = bidded_query d
           in if length found = 0 then (d, [Send chat NoBiddedItems])
              else (d, [Send chat (BiddedItems (map item_line found))]))"

section \<open>Auction lifecycle (timed variant)\<close>

datatype outcome = Returned | Raised

text \<open>
  \<^verbatim>\<open>checkAndFinalizeAuction(item)\<close>. The two user lookups and the two messages are awaited
  outside any \<^verbatim>\<open>try\<close>: when one throws, the function raises with what it did so far. The
  update and the delete are inside the function's own \<^verbatim>\<open>try\<close>.
\<close>

definition finalize_writes :: "faults \<Rightarrow> item \<Rightarrow> db \<Rightarrow> db \<times> event list" where
  "finalize_writes fails item d =
     (if fails (ItemsUpdateOne (item_id item)) then (d, [Log (ErrFinalize (name item))])
      else let d1 = apply_write (SetCompleted (item_id item)) d
           in if fails (ItemsDeleteOne (item_id item))
              then (d1, [Wrote (SetCompleted (item_id item)), Log (ErrFinalize (name item))])
              else (apply_write (DeleteItem (item_id item)) d1,
                    [Wrote (SetCompleted (item_id item)), Wrote (DeleteItem (item_id item)),
                     Log (ItemDeleted (name item))]))"

definition notify_winner :: "faults \<Rightarrow> item \<Rightarrow> db \<Rightarrow> event list \<times> outcome" where
  "notify_winner fails item d =
     (case highestBid item of
        Val hb \<Rightarrow>
          if fails (UsersFindOne (bid_userId hb)) then ([], Raised)
          else (case find_user (bid_userId hb) d of
                  Some winner \<Rightarrow>
                    ([Send (userId winner) (Won (name item) (amount hb))],
                     if fails (SendMessage (userId winner)) then Raised else Returned)
                | None \<Rightarrow> ([], Returned))
      | _ \<Rightarrow> ([], Returned))"

definition notify_creator :: "faults \<Rightarrow> item \<Rightarrow> db \<Rightarrow> event list \<times> outcome" where
  "notify_creator fails item d =
     (if fails (UsersFindOne (creatorId item)) then ([], Raised)
      else case find_user (creatorId item) d of
        Some creator \<Rightarrow>
          ([Send (userId creator)
              (Ended (name item) (case highestBid item of Val hb \<Rightarrow> amount hb | _ \<Rightarrow> 0))],
           if fails (SendMessage (userId creator)) then Raised else Returned)
      | None \<Rightarrow> ([], Returned))"

definition checkAndFinalizeAuction ::
  "faults \<Rightarrow> nat \<Rightarrow> item \<Rightarrow> db \<Rightarrow> db \<times> event list \<times> outcome" where
  "checkAndFinalizeAuction fails now item d =
     (if (case endTime item of Some e \<Rightarrow> e \<le> now | None \<Rightarrow> False) \<and> \<not> completed item
      then (case notify_winner fails item d of
              (ev1, Raised) \<Rightarrow> (d, ev1, Raised)
            | (ev1, Returned) \<Rightarrow>
                (case notify_creator fails item d of
                   (ev2, Raised) \<Rightarrow> (d, ev1 @ ev2, Raised)
                 | (ev2, Returned) \<Rightarrow>
                     (case finalize_writes fails item d of
                        (d', ev3) \<Rightarrow> (d', ev1 @ ev2 @ ev3, Returned))))
      else (d, [], Returned))"

text \<open>
  The sweep, every 60 seconds:
  \<^verbatim>\<open>try { items = await find({ endTime: { $lte: now }, completed: { $ne: true } }).toArray();
  for (const item of items) await checkAndFinalizeAuction(item) } catch (err) { log }\<close>.
\<close>

definition expired_query :: "nat \<Rightarrow> db \<Rightarrow> item list" where
  "expired_query now d =
     filter (\<lambda>x. (case endTime x of Some e \<Rightarrow> e \<le> now | None \<Rightarrow> False) \<and> completed x \<noteq> True)
       (items d)"

fun sweep_loop :: "faults \<Rightarrow> nat \<Rightarrow> item list \<Rightarrow> db \<Rightarrow> db \<times> event list" where
  "sweep_loop fails now [] d = (d, [])"
| "sweep_loop fails now (item # rest) d =
     (case checkAndFinalizeAuction fails now item d of
        (d', ev, Raised) \<Rightarrow> (d', ev @ [Log ErrSweep])
      | (d', ev, Returned) \<Rightarrow>
          (case sweep_loop fails now rest d' of (d'', ev') \<Rightarrow> (d'', ev @ ev')))"

definition sweep :: "faults \<Rightarrow> nat \<Rightarrow> db \<Rightarrow> db \<times> event list" where
  "sweep fails now d =
     (if fails ItemsFind then (d, [Log ErrSweep])
      else sweep_loop fails now (expired_query now d) d)"

section \<open>Runs\<close>

text \<open>
  The commands that change the database, for both programs, and the states a database
  reaches from the empty one when handlers run one after the other, at any times and
  under any faults.
\<close>

datatype command =
    Register nat nat
  | CreateItem nat nat string nat nat
  | CreateItemTimed nat nat string nat nat nat direction
  | Bid nat nat string nat
  | BidTimed nat nat string nat
  | BiddedItemsCmd nat
  | Sweep

fun exec :: "faults \<Rightarrow> nat \<Rightarrow> command \<Rightarrow> db \<Rightarrow> db \<times> event list" where
  "exec fails now (Register chat uid) d = register fails chat uid d"
| "exec fails now (CreateItem chat uid n lo hi) d = createitem_simple fails chat uid n lo hi d"
| "exec fails now (CreateItemTimed chat uid n lo hi mins dir) d =
     createitem_timed fails now chat uid n lo hi mins dir d"
| "exec fails now (Bid chat uid n a) d = bid_simple fails now chat uid n a d"
| "exec fails now (BidTimed chat uid n a) d = bid_timed fails now chat uid n a d"
| "exec fails now (BiddedItemsCmd chat) d = biddeditems fails chat d"
| "exec fails now Sweep d = sweep fails now d"

fun run :: "(faults \<times> nat \<times> command) list \<Rightarrow> db \<Rightarrow> db" where
  "run [] d = d"
| "run ((fails, now, c) # cs) d = run cs (fst (exec fails now c d))"

inductive reachable :: "db \<Rightarrow> bool" where
  reachable_empty: "reachable empty_db"
| reachable_step: "reachable d \<Longrightarrow> reachable (fst (exec fails now c d))"

section \<open>Invariants of the database\<close>

text \<open>
  The bid log of an item: the records of the bids collection that carry its \<^verbatim>\<open>_id\<close>, in the
  order they were appended.
\<close>

definition item_log :: "nat \<Rightarrow> db \<Rightarrow> bid list" where
  "item_log i d = filter (\<lambda>b. itemId b = i) (bids d)"

text \<open>
  An item and the bid log agree: the embedded \<open>highestBid\<close> is \<^verbatim>\<open>null\<close> when the item has
  no logged bid, and is the last logged bid otherwise.
\<close>

definition synced :: "db \<Rightarrow> item \<Rightarrow> bool" where
  "synced d x \<longleftrightarrow>
     highestBid x =
       (if item_log (item_id x) d = [] then Null else Val (last (item_log (item_id x) d)))"

text \<open>
  What every handler preserves: \<^verbatim>\<open>_id\<close>s are unique and older than the generator, every item
  agrees with its bid log, and the amounts of each bid log increase strictly.
\<close>

definition wf_db :: "db \<Rightarrow> bool" where
  "wf_db d \<longleftrightarrow>
     distinct (map item_id (items d))
     \<and> list_all (\<lambda>x. item_id x < nextId d \<and> synced d x) (items d)
     \<and> list_all (\<lambda>b. itemId b < nextId d) (bids d)
     \<and> (\<forall>i. sorted_wrt (<) (map amount (item_log i d)))"

text \<open>The embedded bid lies within the item's bid range.\<close>

definition in_range :: "item \<Rightarrow> bool" where
  "in_range x =
     (case highestBid x of
        Val b \<Rightarrow> lowAmount x \<le> amount b \<and> amount b \<le> highAmount x
      | _ \<Rightarrow> True)"

section \<open>Facts about first-match updates\<close>

lemma update_first_map_key:
  "(\<And>x. k (f x) = k x) \<Longrightarrow> map k (update_first P f xs) = map k xs"
  by (induction xs) auto

lemma key_absent:
  "distinct (map k (x # xs)) \<Longrightarrow> \<forall>y \<in> set xs. k y \<noteq> k x"
  by (metis distinct.simps(2) image_eqI list.simps(9) list.set_map)

lemma update_first_set:
  "y \<in> set (update_first P f xs) \<Longrightarrow> y \<in> set xs \<or> (\<exists>x \<in> set xs. y = f x)"
  by (induction xs) (auto split: if_splits)

lemma delete_first_set: "y \<in> set (delete_first P xs) \<Longrightarrow> y \<in> set xs"
  by (induction xs) (auto split: if_splits)

lemma delete_first_distinct:
  "distinct (map k xs) \<Longrightarrow> distinct (map k (delete_first P xs))"
  by (induction xs) (auto dest: delete_first_set)

lemma update_first_as_map:
  "distinct (map k xs) \<Longrightarrow>
     update_first (\<lambda>x. k x = i) f xs = map (\<lambda>x. if k x = i then f x else x) xs"
proof (induction xs)
  case Nil
  then show ?case by simp
next
  case (Cons x xs)
  show ?case
  proof (cases "k x = i")
    case True
    with key_absent [OF Cons.prems] have "\<forall>y \<in> set xs. k y \<noteq> i" by simp
    then have "map (\<lambda>x. if k x = i then f x else x) xs = xs"
      by (simp add: map_idI)
    with True show ?thesis by simp
  next
    case False
    with Cons show ?thesis by simp
  qed
qed

lemma delete_first_as_filter:
  "distinct (map k xs) \<Longrightarrow> delete_first (\<lambda>x. k x = i) xs = filter (\<lambda>x. k x \<noteq> i) xs"
proof (induction xs)
  case Nil
  then show ?case by simp
next
  case (Cons x xs)
  show ?case
  proof (cases "k x = i")
    case True
    with key_absent [OF Cons.prems] have "\<forall>y \<in> set xs. k y \<noteq> i" by simp
    then have "filter (\<lambda>x. k x \<noteq> i) xs = xs" by simp
    with True show ?thesis by simp
  next
    case False
    with Cons show ?thesis by simp
  qed
qed

lemma find_update_first:
  "(\<And>x. k (f x) = k x) \<Longrightarrow>
     List.find (\<lambda>x. k x = i) (update_first (\<lambda>x. k x = i) f xs) =
       map_option f (List.find (\<lambda>x. k x = i) xs)"
  by (induction xs) auto

section \<open>Every handler preserves the invariants\<close>

lemma wf_empty: "wf_db empty_db"
  by (simp add: wf_db_def empty_db_def item_log_def)

lemma wf_insert_user: "wf_db d \<Longrightarrow> wf_db (apply_write (InsertUser u) d)"
  by (auto simp: wf_db_def item_log_def synced_def list_all_iff)

lemma log_fresh_empty:
  "list_all (\<lambda>b. itemId b < nextId d) (bids d) \<Longrightarrow> item_log (nextId d) d = []"
  by (auto simp: item_log_def list_all_iff filter_empty_conv)

lemma wf_insert_item:
  assumes "wf_db d" and "highestBid it = Null"
  shows "wf_db (apply_write (InsertItem it) d)"
proof -
  have fresh: "item_log (nextId d) d = []"
    using assms(1) by (simp add: wf_db_def log_fresh_empty)
  have ids: "\<forall>x \<in> set (items d). item_id x < nextId d"
    using assms(1) by (simp add: wf_db_def list_all_iff)
  show ?thesis
    using assms fresh ids
    by (auto simp: wf_db_def synced_def item_log_def list_all_iff less_Suc_eq)
qed

lemma wf_update_items:
  assumes wf: "wf_db d"
    and f: "\<And>x. item_id (f x) = item_id x" "\<And>x. highestBid (f x) = highestBid x"
  shows "wf_db (d\<lparr>items := update_first P f (items d)\<rparr>)"
proof -
  let ?d' = "d\<lparr>items := update_first P f (items d)\<rparr>"
  have log: "\<And>j. item_log j ?d' = item_log j d" by (simp add: item_log_def)
  have old: "\<forall>x \<in> set (items d). item_id x < nextId d \<and> synced d x"
    using wf by (simp add: wf_db_def list_all_iff)
  have "\<forall>y \<in> set (items ?d'). item_id y < nextId ?d' \<and> synced ?d' y"
  proof
    fix y assume "y \<in> set (items ?d')"
    then have "y \<in> set (items d) \<or> (\<exists>x \<in> set (items d). y = f x)"
      using update_first_set [of y P f "items d"] by simp
    with old f show "item_id y < nextId ?d' \<and> synced ?d' y"
      by (auto simp: synced_def log)
  qed
  moreover have "distinct (map item_id (items ?d'))"
    using wf f by (simp add: wf_db_def update_first_map_key)
  ultimately show ?thesis
    using wf by (simp add: wf_db_def list_all_iff log)
qed

lemma wf_set_completed: "wf_db d \<Longrightarrow> wf_db (apply_write (SetCompleted i) d)"
  by (simp add: wf_update_items)

lemma wf_delete_item:
  assumes wf: "wf_db d"
  shows "wf_db (apply_write (DeleteItem i) d)"
proof -
  let ?d' = "d\<lparr>items := delete_first (\<lambda>x. item_id x = i) (items d)\<rparr>"
  have log: "\<And>j. item_log j ?d' = item_log j d" by (simp add: item_log_def)
  have old: "\<forall>x \<in> set (items d). item_id x < nextId d \<and> synced d x"
    using wf by (simp add: wf_db_def list_all_iff)
  have "\<forall>y \<in> set (items ?d'). item_id y < nextId ?d' \<and> synced ?d' y"
  proof
    fix y assume "y \<in> set (items ?d')"
    then have "y \<in> set (items d)" by (auto dest: delete_first_set)
    with old show "item_id y < nextId ?d' \<and> synced ?d' y"
      by (auto simp: synced_def log)
  qed
  moreover have "distinct (map item_id (items ?d'))"
    using wf by (simp add: wf_db_def delete_first_distinct)
  ultimately have "wf_db ?d'"
    using wf by (simp add: wf_db_def list_all_iff log)
  then show ?thesis by simp
qed

lemma wf_bid:
  assumes wf: "wf_db d"
    and found: "find_item_by_id i d = Some w"
    and higher: "\<not> (case highestBid w of Val hb \<Rightarrow> a \<le> amount hb | _ \<Rightarrow> False)"
    and b: "itemId b = i" "amount b = a"
  shows "wf_db (commit [InsertBid b, SetHighestBid i b] d)"
proof -
  have w_in: "w \<in> set (items d)" and w_id: "item_id w = i"
    using found by (auto simp: find_item_by_id_def find_Some_iff)
  have dist: "distinct (map item_id (items d))"
    and ids: "\<forall>x \<in> set (items d). item_id x < nextId d \<and> synced d x"
    and bidids: "\<forall>c \<in> set (bids d). itemId c < nextId d"
    and sorted: "\<And>j. sorted_wrt (<) (map amount (item_log j d))"
    using wf by (auto simp: wf_db_def list_all_iff)
  let ?d' = "commit [InsertBid b, SetHighestBid i b] d"
  have items': "items ?d' = map (\<lambda>x. if item_id x = i then x\<lparr>highestBid := Val b\<rparr> else x) (items d)"
    using dist by (simp add: commit_def update_first_as_map)
  have bids': "bids ?d' = bids d @ [b]" and next': "nextId ?d' = nextId d"
    by (simp_all add: commit_def)
  have log_i: "item_log i ?d' = item_log i d @ [b]"
    using b by (simp add: item_log_def bids')
  have log_other: "\<And>j. j \<noteq> i \<Longrightarrow> item_log j ?d' = item_log j d"
    using b by (simp add: item_log_def bids')
  have w_sync: "synced d w" using ids w_in by blast
  have above: "\<forall>c \<in> set (item_log i d). amount c < amount b"
  proof (cases "item_log i d = []")
    case True
    then show ?thesis by simp
  next
    case False
    with w_sync w_id have hb: "highestBid w = Val (last (item_log i d))"
      by (simp add: synced_def)
    with higher b have lt: "amount (last (item_log i d)) < amount b" by simp
    have "\<forall>c \<in> set (item_log i d). amount c \<le> amount (last (item_log i d))"
    proof
      fix c assume c: "c \<in> set (item_log i d)"
      obtain ys y where split: "item_log i d = ys @ [y]"
        using False by (metis rev_exhaust)
      have "sorted_wrt (<) (map amount (ys @ [y]))" using sorted [of i] split by simp
      then have "\<forall>z \<in> set ys. amount z < amount y"
        by (auto simp: sorted_wrt_append)
      with c split show "amount c \<le> amount (last (item_log i d))" by auto
    qed
    with lt show ?thesis by auto
  qed
  have sorted': "\<And>j. sorted_wrt (<) (map amount (item_log j ?d'))"
  proof -
    fix j
    show "sorted_wrt (<) (map amount (item_log j ?d'))"
    proof (cases "j = i")
      case True
      with sorted [of i] above show ?thesis
        by (simp add: log_i sorted_wrt_append)
    next
      case False
      with sorted [of j] show ?thesis by (simp add: log_other)
    qed
  qed
  have sync': "\<forall>x \<in> set (items ?d'). item_id x < nextId ?d' \<and> synced ?d' x"
  proof
    fix x assume "x \<in> set (items ?d')"
    then obtain y where y: "y \<in> set (items d)"
      and x: "x = (if item_id y = i then y\<lparr>highestBid := Val b\<rparr> else y)"
      by (auto simp: items')
    show "item_id x < nextId ?d' \<and> synced ?d' x"
    proof (cases "item_id y = i")
      case True
      with x y ids have "item_id x < nextId d" "synced ?d' x"
        by (auto simp: synced_def log_i)
      then show ?thesis by (simp add: next')
    next
      case False
      with x y ids have "item_id x < nextId d" "synced ?d' x"
        by (auto simp: synced_def log_other)
      then show ?thesis by (simp add: next')
    qed
  qed
  have dist': "distinct (map item_id (items ?d'))"
    using dist by (simp add: commit_def update_first_map_key)
  have bidids': "\<forall>c \<in> set (bids ?d'). itemId c < nextId ?d'"
    using bidids ids w_in w_id b by (auto simp: bids' next')
  show ?thesis
    unfolding wf_db_def list_all_iff using dist' sync' bidids' sorted' by blast
qed


lemma wf_register: "wf_db d \<Longrightarrow> wf_db (fst (register fails chat uid d))"
  by (simp add: register_def Let_def wf_insert_user split: option.splits
        del: apply_write.simps)

lemma wf_createitem_simple:
  "wf_db d \<Longrightarrow> wf_db (fst (createitem_simple fails chat uid n lo hi d))"
  by (simp add: createitem_simple_def Let_def wf_insert_item split: option.splits
        del: apply_write.simps)

lemma wf_createitem_timed:
  "wf_db d \<Longrightarrow> wf_db (fst (createitem_timed fails now chat uid n lo hi mins dir d))"
  by (simp add: createitem_timed_def Let_def wf_insert_item split: option.splits
        del: apply_write.simps)

lemma find_item_by_id_id: "find_item_by_id i d = Some w \<Longrightarrow> item_id w = i"
  by (auto simp: find_item_by_id_def find_Some_iff)

lemma wf_bid_transaction:
  assumes "wf_db d"
  shows "wf_db (fst (bid_transaction dest fails now chat uid n a item d))"
proof (cases "find_item_by_id (item_id item) d")
  case None
  with assms show ?thesis by (simp add: bid_transaction_def bid_caught_def)
next
  case (Some w)
  have w_id: "item_id w = item_id item" by (rule find_item_by_id_id [OF Some])
  show ?thesis
  proof (cases "case highestBid w of Val hb \<Rightarrow> a \<le> amount hb | _ \<Rightarrow> False")
    case True
    with assms Some show ?thesis by (simp add: bid_transaction_def bid_caught_def)
  next
    case False
    let ?b = "\<lparr>itemId = item_id item, bid_userId = uid, amount = a, timestamp = now\<rparr>"
    have "wf_db (commit [InsertBid ?b, SetHighestBid (item_id item) ?b] d)"
      using wf_bid [OF assms Some False, of ?b] by simp
    with assms Some False w_id show ?thesis
      by (simp add: bid_transaction_def bid_caught_def Let_def split: option.splits)
  qed
qed

lemma wf_bid_simple: "wf_db d \<Longrightarrow> wf_db (fst (bid_simple fails now chat uid n a d))"
  by (simp add: bid_simple_def bid_caught_def wf_bid_transaction split: option.splits)

lemma wf_bid_timed: "wf_db d \<Longrightarrow> wf_db (fst (bid_timed fails now chat uid n a d))"
  by (simp add: bid_timed_def bid_caught_def wf_bid_transaction split: option.splits)

lemma wf_finalize_writes: "wf_db d \<Longrightarrow> wf_db (fst (finalize_writes fails item d))"
  by (simp add: finalize_writes_def Let_def wf_set_completed wf_delete_item
        del: apply_write.simps)

lemma wf_checkAndFinalizeAuction:
  "wf_db d \<Longrightarrow> wf_db (fst (checkAndFinalizeAuction fails now item d))"
  using wf_finalize_writes [of d fails item]
  by (auto simp: checkAndFinalizeAuction_def split: prod.splits outcome.splits)

lemma wf_sweep_loop: "wf_db d \<Longrightarrow> wf_db (fst (sweep_loop fails now its d))"
proof (induction its arbitrary: d)
  case Nil
  then show ?case by simp
next
  case (Cons item rest)
  obtain d' ev out where step: "checkAndFinalizeAuction fails now item d = (d', ev, out)"
    by (cases "checkAndFinalizeAuction fails now item d") auto
  then have wf': "wf_db d'"
    using wf_checkAndFinalizeAuction [OF Cons.prems, of fails now item] by simp
  show ?case
  proof (cases out)
    case Returned
    with step Cons.IH [OF wf'] show ?thesis by (auto split: prod.splits)
  next
    case Raised
    with step wf' show ?thesis by simp
  qed
qed

lemma wf_sweep: "wf_db d \<Longrightarrow> wf_db (fst (sweep fails now d))"
  by (simp add: sweep_def wf_sweep_loop)

lemma wf_exec: "wf_db d \<Longrightarrow> wf_db (fst (exec fails now c d))"
  by (cases c)
     (simp_all add: wf_register wf_createitem_simple wf_createitem_timed wf_bid_simple
        wf_bid_timed wf_sweep biddeditems_def Let_def)

lemma reachable_wf: "reachable d \<Longrightarrow> wf_db d"
  by (induction rule: reachable.induct) (simp_all add: wf_empty wf_exec)

lemma reachable_run: "reachable d \<Longrightarrow> reachable (run cs d)"
proof (induction cs arbitrary: d)
  case Nil
  then show ?case by simp
next
  case (Cons c cs)
  obtain fails now cmd where c: "c = (fails, now, cmd)" by (cases c) auto
  from Cons.prems have "reachable (fst (exec fails now cmd d))" by (rule reachable_step)
  then show ?case using Cons.IH c by simp
qed

section \<open>Registration\<close>

lemma find_user_None_filter:
  "find_user uid d = None \<Longrightarrow> filter (\<lambda>u. userId u = uid) (users d) = []"
  by (auto simp: find_user_def find_None_iff filter_empty_conv)

text \<open>
  C8. Registration is idempotent. For a user id with no record yet, when the lookup and the
  insert do not fail: the first /register inserts the record and answers with the success
  message; a second /register for the same user id inserts nothing, leaves the database as
  it is and answers with the different message "You are already registered."; the
  users collection then holds exactly one record for that user id.
\<close>

theorem register_idempotent:
  assumes fresh: "find_user uid d = None"
    and ok1: "\<not> fails1 (UsersFindOne uid)" "\<not> fails1 (UsersInsertOne uid)"
    and ok2: "\<not> fails2 (UsersFindOne uid)"
  shows "register fails1 chat uid d =
           (d\<lparr>users := users d @ [\<lparr>userId = uid, chatId = chat\<rparr>]\<rparr>,
            [Wrote (InsertUser \<lparr>userId = uid, chatId = chat\<rparr>), Send chat Registered])
       \<and> register fails2 chat' uid (fst (register fails1 chat uid d)) =
           (fst (register fails1 chat uid d), [Send chat' AlreadyRegistered])
       \<and> length (filter (\<lambda>u. userId u = uid)
            (users (fst (register fails2 chat' uid (fst (register fails1 chat uid d)))))) = 1"
proof -
  let ?u = "\<lparr>userId = uid, chatId = chat\<rparr>"
  let ?d1 = "d\<lparr>users := users d @ [?u]\<rparr>"
  have first: "register fails1 chat uid d = (?d1, [Wrote (InsertUser ?u), Send chat Registered])"
    using fresh ok1 by (simp add: register_def)
  obtain u where found: "find_user uid ?d1 = Some u"
    by (cases "find_user uid ?d1") (auto simp: find_user_def find_None_iff)
  have second: "register fails2 chat' uid ?d1 = (?d1, [Send chat' AlreadyRegistered])"
    using ok2 found by (simp add: register_def)
  have one: "length (filter (\<lambda>u. userId u = uid) (users ?d1)) = 1"
    using find_user_None_filter [OF fresh] by simp
  show ?thesis using first second one by simp
qed

theorem register_idempotent_witness:
  "register no_faults 7 7 empty_db =
     (empty_db\<lparr>users := users empty_db @ [\<lparr>userId = 7, chatId = 7\<rparr>]\<rparr>,
      [Wrote (InsertUser \<lparr>userId = 7, chatId = 7\<rparr>), Send 7 Registered])
   \<and> register no_faults 7 7 (fst (register no_faults 7 7 empty_db)) =
     (fst (register no_faults 7 7 empty_db), [Send 7 AlreadyRegistered])
   \<and> length (filter (\<lambda>u. userId u = 7)
        (users (fst (register no_faults 7 7 (fst (register no_faults 7 7 empty_db)))))) = 1"
  by (rule register_idempotent) (simp_all add: find_user_def empty_db_def no_faults_def)

section \<open>Item creation\<close>

lemmas handler_defs =
  register_def createitem_simple_def createitem_timed_def bid_simple_def bid_timed_def
  bid_transaction_def bid_caught_def notify_previous_def biddeditems_def bidded_query_def
  item_line_def sweep_def expired_query_def checkAndFinalizeAuction_def notify_winner_def
  notify_creator_def finalize_writes_def commit_def find_user_def find_item_by_name_def
  find_item_by_id_def empty_db_def no_faults_def Let_def

text \<open>
  C10. /createitem requires a registered creator, in both programs. For a user id with no
  record in the users collection and valid amounts (\<open>0 < low < high\<close>), when the user
  lookup does not fail, the handler inserts nothing, leaves the database as it is and
  answers "You need to register first using /register command."; and whatever fails, the
  database is unchanged.
\<close>

theorem createitem_requires_registration:
  assumes "find_user uid d = None" and "0 < lowA" and "lowA < highA"
    and "\<not> fails (UsersFindOne uid)"
  shows "createitem_simple fails chat uid n lowA highA d = (d, [Send chat NeedRegister])
       \<and> createitem_timed fails now chat uid n lowA highA mins dir d =
           (d, [Send chat NeedRegister])
       \<and> fst (createitem_simple fails' chat uid n lowA highA d) = d
       \<and> fst (createitem_timed fails' now chat uid n lowA highA mins dir d) = d"
  using assms by (simp add: createitem_simple_def createitem_timed_def Let_def)

theorem createitem_requires_registration_witness:
  "createitem_simple no_faults 3 3 ''lamp'' 10 20 empty_db = (empty_db, [Send 3 NeedRegister])
   \<and> createitem_timed no_faults 0 3 3 ''lamp'' 10 20 1 High empty_db =
       (empty_db, [Send 3 NeedRegister])
   \<and> fst (createitem_simple (\<lambda>c. True) 3 3 ''lamp'' 10 20 empty_db) = empty_db
   \<and> fst (createitem_timed (\<lambda>c. True) 0 3 3 ''lamp'' 10 20 1 High empty_db) = empty_db"
  by (rule createitem_requires_registration)
     (simp_all add: find_user_def empty_db_def no_faults_def)

text \<open>
  C9, as the code has it. The claim that no two item records share a name fails: a
  registered user who sends /createitem twice with the same name gets two records with that
  name.
\<close>

theorem createitem_duplicate_name:
  "map name (items (run [(no_faults, 0, Register 1 1),
                         (no_faults, 0, CreateItem 1 1 ''lamp'' 10 20),
                         (no_faults, 0, CreateItem 1 1 ''lamp'' 30 40)] empty_db)) =
     [''lamp'', ''lamp'']
   \<and> \<not> distinct (map name (items (run [(no_faults, 0, Register 1 1),
                         (no_faults, 0, CreateItem 1 1 ''lamp'' 10 20),
                         (no_faults, 0, CreateItem 1 1 ''lamp'' 30 40)] empty_db)))"
  by (simp add: handler_defs)

text \<open>
  C9, amended. The unique key of an item record is its \<^verbatim>\<open>_id\<close>: in every reachable state no
  two item records share an \<^verbatim>\<open>_id\<close>. The name is not checked: /createitem by a registered
  user with valid amounts, when the lookup and the insert do not fail, appends a new record
  with a fresh \<^verbatim>\<open>_id\<close> whether or not a record of that name exists.
\<close>

theorem item_id_is_the_unique_key:
  assumes "reachable d" and "find_user uid d = Some u" and "0 < lo" and "lo < hi"
    and "\<not> fails (UsersFindOne uid)" and "\<not> fails (ItemsInsertOne n)"
  shows "distinct (map item_id (items d))
       \<and> items (fst (createitem_simple fails chat uid n lo hi d)) =
           items d @ [\<lparr>item_id = nextId d, name = n, creatorId = uid, lowAmount = lo,
                       highAmount = hi, endTime = None, highestBid = Null,
                       completed = False, bidDirection = None\<rparr>]
       \<and> items (fst (createitem_timed fails now chat uid n lo hi mins dir d)) =
           items d @ [\<lparr>item_id = nextId d, name = n, creatorId = uid, lowAmount = lo,
                       highAmount = hi, endTime = Some (now + mins * 60000),
                       highestBid = Null, completed = False, bidDirection = Some dir\<rparr>]
       \<and> distinct (map item_id (items (fst (createitem_simple fails chat uid n lo hi d))))
       \<and> distinct (map item_id
            (items (fst (createitem_timed fails now chat uid n lo hi mins dir d))))"
proof -
  have "wf_db d" using assms(1) by (rule reachable_wf)
  then have d: "distinct (map item_id (items d))" by (simp add: wf_db_def)
  have "wf_db (fst (createitem_simple fails chat uid n lo hi d))"
    using \<open>wf_db d\<close> by (rule wf_createitem_simple)
  then have s: "distinct (map item_id (items (fst (createitem_simple fails chat uid n lo hi d))))"
    by (simp add: wf_db_def)
  have "wf_db (fst (createitem_timed fails now chat uid n lo hi mins dir d))"
    using \<open>wf_db d\<close> by (rule wf_createitem_timed)
  then have t: "distinct (map item_id
      (items (fst (createitem_timed fails now chat uid n lo hi mins dir d))))"
    by (simp add: wf_db_def)
  have "items (fst (createitem_simple fails chat uid n lo hi d)) =
           items d @ [\<lparr>item_id = nextId d, name = n, creatorId = uid, lowAmount = lo,
                       highAmount = hi, endTime = None, highestBid = Null,
                       completed = False, bidDirection = None\<rparr>]"
    using assms by (simp add: createitem_simple_def Let_def)
  moreover have "items (fst (createitem_timed fails now chat uid n lo hi mins dir d)) =
           items d @ [\<lparr>item_id = nextId d, name = n, creatorId = uid, lowAmount = lo,
                       highAmount = hi, endTime = Some (now + mins * 60000),
                       highestBid = Null, completed = False, bidDirection = Some dir\<rparr>]"
    using assms by (simp add: createitem_timed_def Let_def)
  ultimately show ?thesis using d s t by simp
qed

theorem item_id_is_the_unique_key_witness:
  "map (\<lambda>x. (item_id x, name x))
     (items (fst (createitem_simple no_faults 1 1 ''lamp'' 30 40
        (run [(no_faults, 0, Register 1 1),
              (no_faults, 0, CreateItem 1 1 ''lamp'' 10 20)] empty_db)))) =
     [(0, ''lamp''), (1, ''lamp'')]
   \<and> map (\<lambda>x. (item_id x, name x))
     (items (fst (createitem_timed no_faults 0 1 1 ''lamp'' 30 40 1 Low
        (run [(no_faults, 0, Register 1 1),
              (no_faults, 0, CreateItem 1 1 ''lamp'' 10 20)] empty_db)))) =
     [(0, ''lamp''), (1, ''lamp'')]"
proof -
  let ?d = "run [(no_faults, 0, Register 1 1),
                 (no_faults, 0, CreateItem 1 1 ''lamp'' 10 20)] empty_db"
  have r: "reachable ?d" by (rule reachable_run [OF reachable_empty])
  have u: "find_user 1 ?d = Some \<lparr>userId = 1, chatId = 1\<rparr>" by (simp add: handler_defs)
  have i: "items ?d = [\<lparr>item_id = 0, name = ''lamp'', creatorId = 1, lowAmount = 10,
                       highAmount = 20, endTime = None, highestBid = Null,
                       completed = False, bidDirection = None\<rparr>]"
    and n: "nextId ?d = 1"
    by (simp_all add: handler_defs)
  have f: "\<not> no_faults (UsersFindOne 1)" "\<not> no_faults (ItemsInsertOne ''lamp'')"
    by (simp_all add: no_faults_def)
  show ?thesis
    using item_id_is_the_unique_key [OF r u _ _ f, of 30 40 1 0 1 Low] i n by simp
qed

section \<open>Listing the items that received bids\<close>

lemma reachable_no_missing:
  assumes "reachable d"
  shows "bidded_query d = items d"
proof -
  have "\<forall>x \<in> set (items d). synced d x"
    using reachable_wf [OF assms] by (simp add: wf_db_def list_all_iff)
  then have "\<forall>x \<in> set (items d). highestBid x \<noteq> Missing"
    by (auto simp: synced_def split: if_splits)
  then show ?thesis by (simp add: bidded_query_def)
qed

text \<open>
  C4, at a failing input. /createitem stores \<^verbatim>\<open>highestBid: null\<close>, and the query
  \<^verbatim>\<open>{ highestBid: { $exists: true } }\<close> matches a field that holds \<^verbatim>\<open>null\<close>: an item nobody
  bid on is listed by /biddeditems, with "No bids yet". (By \<open>reachable_no_missing\<close> the
  query returns every item in every reachable state.)
\<close>

theorem biddeditems_lists_item_without_bid:
  "biddeditems no_faults 1
     (run [(no_faults, 0, Register 1 1),
           (no_faults, 0, CreateItemTimed 1 1 ''lamp'' 10 20 1 High)] empty_db) =
   (run [(no_faults, 0, Register 1 1),
         (no_faults, 0, CreateItemTimed 1 1 ''lamp'' 10 20 1 High)] empty_db,
    [Send 1 (BiddedItems [(''lamp'', None, None)])])"
  by (simp add: handler_defs)

section \<open>Outbid notifications\<close>

text \<open>The transaction's result when it commits, and that it commits only this way.\<close>

lemma bid_transaction_committed:
  assumes "Send chat (BidPlaced a n) \<in> set (snd (bid_transaction dest fails now chat uid n a item d))"
  shows "\<exists>w sent. find_item_by_id (item_id item) d = Some w
           \<and> notify_previous dest fails n a w d = Some sent
           \<and> \<not> (case highestBid w of Val hb \<Rightarrow> a \<le> amount hb | _ \<Rightarrow> False)
           \<and> bid_transaction dest fails now chat uid n a item d =
               (commit [InsertBid \<lparr>itemId = item_id w, bid_userId = uid, amount = a,
                                    timestamp = now\<rparr>,
                        SetHighestBid (item_id w) \<lparr>itemId = item_id w, bid_userId = uid,
                                    amount = a, timestamp = now\<rparr>] d,
                sent @ [Wrote (InsertBid \<lparr>itemId = item_id w, bid_userId = uid, amount = a,
                                    timestamp = now\<rparr>),
                        Wrote (SetHighestBid (item_id w) \<lparr>itemId = item_id w,
                                    bid_userId = uid, amount = a, timestamp = now\<rparr>),
                        Send chat (BidPlaced a n)])"
proof (cases "find_item_by_id (item_id item) d")
  case None
  with assms show ?thesis by (simp add: bid_transaction_def bid_caught_def split: if_splits)
next
  case (Some w)
  have no_placed: "Send chat (BidPlaced a n) \<notin> set sent"
    if "notify_previous dest fails n a w d = Some sent" for sent
    using that
    by (auto simp: notify_previous_def split: field.splits if_splits option.splits)
  show ?thesis
  proof (cases "notify_previous dest fails n a w d")
    case None
    with assms Some show ?thesis
      by (simp add: bid_transaction_def bid_caught_def Let_def split: if_splits)
  next
    case (Some sent)
    with assms \<open>find_item_by_id (item_id item) d = Some w\<close> no_placed [OF Some]
    show ?thesis
      by (simp add: bid_transaction_def bid_caught_def Let_def split: if_splits)
  qed
qed

lemma notify_previous_sent:
  "notify_previous dest fails n a w d = Some sent \<Longrightarrow>
     (Send t (Outbid n a) \<in> set sent) =
       (\<exists>prev p. highestBid w = Val prev \<and> find_user (bid_userId prev) d = Some p
                  \<and> dest p = t)"
  by (auto simp: notify_previous_def split: field.splits if_splits option.splits)

lemma bid_transaction_outbid:
  assumes "Send chat (BidPlaced a n) \<in> set (snd (bid_transaction dest fails now chat uid n a item d))"
  shows "(Send t (Outbid n a) \<in> set (snd (bid_transaction dest fails now chat uid n a item d))) =
           (\<exists>w prev p. find_item_by_id (item_id item) d = Some w \<and> highestBid w = Val prev
                        \<and> find_user (bid_userId prev) d = Some p \<and> dest p = t)"
proof -
  from bid_transaction_committed [OF assms] obtain w sent where
    w: "find_item_by_id (item_id item) d = Some w"
    and s: "notify_previous dest fails n a w d = Some sent"
    and r: "snd (bid_transaction dest fails now chat uid n a item d) =
              sent @ [Wrote (InsertBid \<lparr>itemId = item_id w, bid_userId = uid, amount = a,
                                    timestamp = now\<rparr>),
                        Wrote (SetHighestBid (item_id w) \<lparr>itemId = item_id w,
                                    bid_userId = uid, amount = a, timestamp = now\<rparr>),
                        Send chat (BidPlaced a n)]"
    by auto
  show ?thesis using notify_previous_sent [OF s, of t] w by (simp add: r)
qed

lemma bid_transaction_send_faults:
  assumes "\<And>c. (\<forall>x. c \<noteq> SendMessage x) \<Longrightarrow> fails' c = fails c"
  shows "bid_transaction dest fails' now chat uid n a item d =
           bid_transaction dest fails now chat uid n a item d"
proof -
  have eqs: "fails' AbortTransaction = fails AbortTransaction"
    "fails' CommitTransaction = fails CommitTransaction"
    "fails' StartTransaction = fails StartTransaction"
    "\<And>i. fails' (ItemsFindOneById i) = fails (ItemsFindOneById i)"
    "\<And>i. fails' (BidsInsertOne i) = fails (BidsInsertOne i)"
    "\<And>i. fails' (ItemsUpdateOne i) = fails (ItemsUpdateOne i)"
    "\<And>i. fails' (UsersFindOne i) = fails (UsersFindOne i)"
    by (simp_all add: assms)
  have np: "notify_previous dest fails' n a w d = notify_previous dest fails n a w d" for w
    by (simp add: notify_previous_def eqs split: field.splits)
  show ?thesis
    by (simp add: bid_transaction_def eqs np Let_def split: option.splits)
qed

lemma bid_simple_send_faults:
  assumes "\<And>c. (\<forall>x. c \<noteq> SendMessage x) \<Longrightarrow> fails' c = fails c"
  shows "bid_simple fails' now chat uid n a d = bid_simple fails now chat uid n a d"
proof -
  have "fails' (ItemsFindOneByName n) = fails (ItemsFindOneByName n)"
    "fails' StartSession = fails StartSession"
    by (simp_all add: assms)
  then show ?thesis
    by (simp add: bid_simple_def bid_transaction_send_faults [of fails' fails, OF assms]
          split: option.splits)
qed

lemma bid_timed_send_faults:
  assumes "\<And>c. (\<forall>x. c \<noteq> SendMessage x) \<Longrightarrow> fails' c = fails c"
  shows "bid_timed fails' now chat uid n a d = bid_timed fails now chat uid n a d"
proof -
  have "fails' (ItemsFindOneByName n) = fails (ItemsFindOneByName n)"
    "fails' StartSession = fails StartSession"
    by (simp_all add: assms)
  then show ?thesis
    by (simp add: bid_timed_def bid_transaction_send_faults [of fails' fails, OF assms]
          split: option.splits)
qed

text \<open>A handler that answers "Your bid ... has been placed" went through the transaction.\<close>

lemma bid_simple_placed:
  assumes "Send chat (BidPlaced a n) \<in> set (snd (bid_simple fails now chat uid n a d))"
  shows "\<exists>item. find_item_by_name n d = Some item
           \<and> bid_simple fails now chat uid n a d =
               bid_transaction chatId fails now chat uid n a item d"
  using assms
  by (auto simp: bid_simple_def bid_caught_def split: if_splits option.splits)

lemma bid_timed_placed:
  assumes "Send chat (BidPlaced a n) \<in> set (snd (bid_timed fails now chat uid n a d))"
  shows "\<exists>item. find_item_by_name n d = Some item
           \<and> bid_timed fails now chat uid n a d =
               bid_transaction userId fails now chat uid n a item d"
  using assms
  by (auto simp: bid_timed_def bid_caught_def split: if_splits option.splits)

text \<open>
  C5, as the code has it. The claim that a user who outbids their own highest bid receives
  no outbid notification fails: the handlers never compare the previous bidder with the new
  one. User 2 holds the highest bid of 12 and bids 15: the first message sent is "You have
  been outbid" to user 2.
\<close>

theorem self_outbid_is_notified:
  "snd (bid_timed no_faults 6 2 2 ''lamp'' 15
          (run [(no_faults, 0, Register 1 1), (no_faults, 0, Register 2 2),
                (no_faults, 0, CreateItemTimed 1 1 ''lamp'' 10 20 1 High),
                (no_faults, 5, BidTimed 2 2 ''lamp'' 12)] empty_db)) =
     [Send 2 (Outbid ''lamp'' 15),
      Wrote (InsertBid \<lparr>itemId = 0, bid_userId = 2, amount = 15, timestamp = 6\<rparr>),
      Wrote (SetHighestBid 0 \<lparr>itemId = 0, bid_userId = 2, amount = 15, timestamp = 6\<rparr>),
      Send 2 (BidPlaced 15 ''lamp'')]
   \<and> snd (bid_simple no_faults 6 2 2 ''lamp'' 15
          (run [(no_faults, 0, Register 1 1), (no_faults, 0, Register 2 2),
                (no_faults, 0, CreateItem 1 1 ''lamp'' 10 20),
                (no_faults, 5, Bid 2 2 ''lamp'' 12)] empty_db)) =
     [Send 2 (Outbid ''lamp'' 15),
      Wrote (InsertBid \<lparr>itemId = 0, bid_userId = 2, amount = 15, timestamp = 6\<rparr>),
      Wrote (SetHighestBid 0 \<lparr>itemId = 0, bid_userId = 2, amount = 15, timestamp = 6\<rparr>),
      Send 2 (BidPlaced 15 ''lamp'')]"
  by (simp add: handler_defs)

text \<open>
  C5, amended. When /bid answers "Your bid ... has been placed", it has sent an outbid
  notification to a destination exactly when the item had a highest bid whose bidder has a
  user record with that destination (the record's \<^verbatim>\<open>chatId\<close> in \<^verbatim>\<open>index.js\<close>, its
  \<^verbatim>\<open>userId\<close> in \<^verbatim>\<open>part_000\<close>), whether or not that bidder is the new bidder. The message is
  sent without \<^verbatim>\<open>await\<close>: two fault settings that differ only in which \<^verbatim>\<open>sendMessage\<close>
  calls fail give the same database and the same events, so a failed notification never
  rolls the bid back.
\<close>

theorem outbid_notification_rule:
  assumes agree: "\<And>c. (\<forall>x. c \<noteq> SendMessage x) \<Longrightarrow> fails' c = fails c"
  shows "(Send chat (BidPlaced a n) \<in> set (snd (bid_simple fails now chat uid n a d)) \<longrightarrow>
          (Send to (Outbid n a) \<in> set (snd (bid_simple fails now chat uid n a d))) =
            (\<exists>item w prev p. find_item_by_name n d = Some item
               \<and> find_item_by_id (item_id item) d = Some w \<and> highestBid w = Val prev
               \<and> find_user (bid_userId prev) d = Some p \<and> chatId p = to))
       \<and> (Send chat (BidPlaced a n) \<in> set (snd (bid_timed fails now chat uid n a d)) \<longrightarrow>
          (Send to (Outbid n a) \<in> set (snd (bid_timed fails now chat uid n a d))) =
            (\<exists>item w prev p. find_item_by_name n d = Some item
               \<and> find_item_by_id (item_id item) d = Some w \<and> highestBid w = Val prev
               \<and> find_user (bid_userId prev) d = Some p \<and> userId p = to))
       \<and> bid_simple fails' now chat uid n a d = bid_simple fails now chat uid n a d
       \<and> bid_timed fails' now chat uid n a d = bid_timed fails now chat uid n a d"
proof -
  have simple: "(Send to (Outbid n a) \<in> set (snd (bid_simple fails now chat uid n a d))) =
           (\<exists>item w prev p. find_item_by_name n d = Some item
              \<and> find_item_by_id (item_id item) d = Some w \<and> highestBid w = Val prev
              \<and> find_user (bid_userId prev) d = Some p \<and> chatId p = to)"
    if s: "Send chat (BidPlaced a n) \<in> set (snd (bid_simple fails now chat uid n a d))"
  proof -
    from bid_simple_placed [OF s] obtain item where
      i: "find_item_by_name n d = Some item"
      and e: "bid_simple fails now chat uid n a d =
                bid_transaction chatId fails now chat uid n a item d"
      by auto
    from s e have c: "Send chat (BidPlaced a n) \<in>
        set (snd (bid_transaction chatId fails now chat uid n a item d))" by simp
    show ?thesis using bid_transaction_outbid [OF c, of to] i by (simp add: e)
  qed
  have timed: "(Send to (Outbid n a) \<in> set (snd (bid_timed fails now chat uid n a d))) =
           (\<exists>item w prev p. find_item_by_name n d = Some item
              \<and> find_item_by_id (item_id item) d = Some w \<and> highestBid w = Val prev
              \<and> find_user (bid_userId prev) d = Some p \<and> userId p = to)"
    if t: "Send chat (BidPlaced a n) \<in> set (snd (bid_timed fails now chat uid n a d))"
  proof -
    from bid_timed_placed [OF t] obtain item where
      i: "find_item_by_name n d = Some item"
      and e: "bid_timed fails now chat uid n a d =
                bid_transaction userId fails now chat uid n a item d"
      by auto
    from t e have c: "Send chat (BidPlaced a n) \<in>
        set (snd (bid_transaction userId fails now chat uid n a item d))" by simp
    show ?thesis using bid_transaction_outbid [OF c, of to] i by (simp add: e)
  qed
  show ?thesis
    using simple timed
      bid_simple_send_faults [of fails' fails, OF agree]
      bid_timed_send_faults [of fails' fails, OF agree]
    by simp
qed

theorem outbid_notification_rule_witness:
  "Send 2 (BidPlaced 15 ''lamp'') \<in> set (snd (bid_timed no_faults 6 2 2 ''lamp'' 15
      (run [(no_faults, 0, Register 1 1), (no_faults, 0, Register 2 2),
            (no_faults, 0, CreateItemTimed 1 1 ''lamp'' 10 20 1 High),
            (no_faults, 5, BidTimed 2 2 ''lamp'' 12)] empty_db)))
   \<and> (\<exists>item w prev p.
        find_item_by_name ''lamp''
          (run [(no_faults, 0, Register 1 1), (no_faults, 0, Register 2 2),
                (no_faults, 0, CreateItemTimed 1 1 ''lamp'' 10 20 1 High),
                (no_faults, 5, BidTimed 2 2 ''lamp'' 12)] empty_db) = Some item
        \<and> find_item_by_id (item_id item)
          (run [(no_faults, 0, Register 1 1), (no_faults, 0, Register 2 2),
                (no_faults, 0, CreateItemTimed 1 1 ''lamp'' 10 20 1 High),
                (no_faults, 5, BidTimed 2 2 ''lamp'' 12)] empty_db) = Some w
        \<and> highestBid w = Val prev
        \<and> find_user (bid_userId prev)
          (run [(no_faults, 0, Register 1 1), (no_faults, 0, Register 2 2),
                (no_faults, 0, CreateItemTimed 1 1 ''lamp'' 10 20 1 High),
                (no_faults, 5, BidTimed 2 2 ''lamp'' 12)] empty_db) = Some p
        \<and> userId p = 2)
   \<and> bid_timed (\<lambda>c. c = SendMessage 2) 6 2 2 ''lamp'' 15
      (run [(no_faults, 0, Register 1 1), (no_faults, 0, Register 2 2),
            (no_faults, 0, CreateItemTimed 1 1 ''lamp'' 10 20 1 High),
            (no_faults, 5, BidTimed 2 2 ''lamp'' 12)] empty_db) =
     bid_timed no_faults 6 2 2 ''lamp'' 15
      (run [(no_faults, 0, Register 1 1), (no_faults, 0, Register 2 2),
            (no_faults, 0, CreateItemTimed 1 1 ''lamp'' 10 20 1 High),
            (no_faults, 5, BidTimed 2 2 ''lamp'' 12)] empty_db)"
proof -
  let ?d = "run [(no_faults, 0, Register 1 1), (no_faults, 0, Register 2 2),
            (no_faults, 0, CreateItemTimed 1 1 ''lamp'' 10 20 1 High),
            (no_faults, 5, BidTimed 2 2 ''lamp'' 12)] empty_db"
  have agree: "\<And>c. (\<forall>x. c \<noteq> SendMessage x) \<Longrightarrow> (c = SendMessage 2) = no_faults c"
    by (auto simp: no_faults_def)
  have ev: "snd (bid_timed no_faults 6 2 2 ''lamp'' 15 ?d) =
     [Send 2 (Outbid ''lamp'' 15),
      Wrote (InsertBid \<lparr>itemId = 0, bid_userId = 2, amount = 15, timestamp = 6\<rparr>),
      Wrote (SetHighestBid 0 \<lparr>itemId = 0, bid_userId = 2, amount = 15, timestamp = 6\<rparr>),
      Send 2 (BidPlaced 15 ''lamp'')]"
    by (simp add: handler_defs)
  note rule = outbid_notification_rule [of "\<lambda>c. c = SendMessage 2" no_faults 2 15 "''lamp''"
      6 2 ?d 2, OF agree]
  have placed: "Send 2 (BidPlaced 15 ''lamp'') \<in> set (snd (bid_timed no_faults 6 2 2 ''lamp'' 15 ?d))"
    unfolding ev by simp
  have sent: "Send 2 (Outbid ''lamp'' 15) \<in> set (snd (bid_timed no_faults 6 2 2 ''lamp'' 15 ?d))"
    unfolding ev by simp
  from rule placed sent show ?thesis by blast
qed

section \<open>Finalization\<close>

lemma find_item_by_id_None: "find_item_by_id i d = None \<longleftrightarrow> i \<notin> item_id ` set (items d)"
  by (auto simp: find_item_by_id_def find_None_iff)

lemma update_first_keys:
  assumes "\<And>x. k (f x) = k x"
  shows "k ` set (update_first P f xs) = k ` set xs"
proof -
  have "map k (update_first P f xs) = map k xs" using assms by (rule update_first_map_key)
  then have "set (map k (update_first P f xs)) = set (map k xs)" by simp
  then show ?thesis by simp
qed

lemma ids_set_completed:
  "item_id ` set (items (apply_write (SetCompleted i) d)) = item_id ` set (items d)"
  by (simp add: update_first_keys)

lemma ids_delete_item:
  "item_id ` set (items (apply_write (DeleteItem i) d)) \<subseteq> item_id ` set (items d)"
  by (auto dest: delete_first_set)

lemma ids_delete_item_gone:
  "distinct (map item_id (items d)) \<Longrightarrow>
     i \<notin> item_id ` set (items (apply_write (DeleteItem i) d))"
  by (auto simp: delete_first_as_filter)

lemma finalize_writes_ids:
  "item_id ` set (items (fst (finalize_writes fails item d))) \<subseteq> item_id ` set (items d)"
proof -
  let ?d1 = "apply_write (SetCompleted (item_id item)) d"
  have "item_id ` set (items (apply_write (DeleteItem (item_id item)) ?d1))
          \<subseteq> item_id ` set (items d)"
    using ids_delete_item [of "item_id item" ?d1] ids_set_completed [of "item_id item" d]
    by simp
  then show ?thesis
    using ids_set_completed [of "item_id item" d]
    by (simp add: finalize_writes_def Let_def del: apply_write.simps)
qed

lemma checkAndFinalizeAuction_ids:
  "item_id ` set (items (fst (checkAndFinalizeAuction fails now item d)))
     \<subseteq> item_id ` set (items d)"
  using finalize_writes_ids [of fails item d]
  by (auto simp: checkAndFinalizeAuction_def split: prod.splits outcome.splits)

lemma sweep_loop_ids:
  "item_id ` set (items (fst (sweep_loop fails now its d))) \<subseteq> item_id ` set (items d)"
proof (induction its arbitrary: d)
  case Nil
  then show ?case by simp
next
  case (Cons item rest)
  obtain d' ev out where step: "checkAndFinalizeAuction fails now item d = (d', ev, out)"
    by (cases "checkAndFinalizeAuction fails now item d") auto
  then have sub: "item_id ` set (items d') \<subseteq> item_id ` set (items d)"
    using checkAndFinalizeAuction_ids [of fails now item d] by simp
  show ?case
  proof (cases out)
    case Returned
    have "fst (sweep_loop fails now (item # rest) d) = fst (sweep_loop fails now rest d')"
      using step Returned by (simp split: prod.splits)
    with Cons.IH [of d'] sub show ?thesis by auto
  next
    case Raised
    with step sub show ?thesis by simp
  qed
qed

text \<open>What a finalization does when no lookup and no message fails.\<close>

lemma notify_winner_quiet:
  assumes "\<And>u. \<not> fails (UsersFindOne u)" and "\<And>u. \<not> fails (SendMessage u)"
  shows "notify_winner fails item d =
           ((case highestBid item of
               Val hb \<Rightarrow> (case find_user (bid_userId hb) d of
                            Some winner \<Rightarrow> [Send (userId winner) (Won (name item) (amount hb))]
                          | None \<Rightarrow> [])
             | _ \<Rightarrow> []), Returned)"
  by (simp add: notify_winner_def assms split: field.splits option.splits)

lemma notify_creator_quiet:
  assumes "\<And>u. \<not> fails (UsersFindOne u)" and "\<And>u. \<not> fails (SendMessage u)"
  shows "notify_creator fails item d =
           ((case find_user (creatorId item) d of
               Some creator \<Rightarrow>
                 [Send (userId creator)
                    (Ended (name item) (case highestBid item of Val hb \<Rightarrow> amount hb | _ \<Rightarrow> 0))]
             | None \<Rightarrow> []), Returned)"
  by (simp add: notify_creator_def assms split: option.splits)

lemma checkAndFinalizeAuction_quiet:
  assumes "\<And>u. \<not> fails (UsersFindOne u)" and "\<And>u. \<not> fails (SendMessage u)"
    and "endTime item = Some e" and "e \<le> now" and "\<not> completed item"
  shows "checkAndFinalizeAuction fails now item d =
           (fst (finalize_writes fails item d),
            (case highestBid item of
               Val hb \<Rightarrow> (case find_user (bid_userId hb) d of
                            Some winner \<Rightarrow> [Send (userId winner) (Won (name item) (amount hb))]
                          | None \<Rightarrow> [])
             | _ \<Rightarrow> [])
            @ (case find_user (creatorId item) d of
               Some creator \<Rightarrow>
                 [Send (userId creator)
                    (Ended (name item) (case highestBid item of Val hb \<Rightarrow> amount hb | _ \<Rightarrow> 0))]
             | None \<Rightarrow> [])
            @ snd (finalize_writes fails item d),
            Returned)"
  using assms(3-5)
  by (simp add: checkAndFinalizeAuction_def notify_winner_quiet [of fails, OF assms(1,2)]
        notify_creator_quiet [of fails, OF assms(1,2)] split: prod.splits)

lemma finalize_writes_ok:
  assumes "\<not> fails (ItemsUpdateOne (item_id item))" and "\<not> fails (ItemsDeleteOne (item_id item))"
  shows "finalize_writes fails item d =
           (apply_write (DeleteItem (item_id item)) (apply_write (SetCompleted (item_id item)) d),
            [Wrote (SetCompleted (item_id item)), Wrote (DeleteItem (item_id item)),
             Log (ItemDeleted (name item))])"
  using assms by (simp add: finalize_writes_def Let_def)

lemma finalize_writes_gone:
  assumes "distinct (map item_id (items d))"
    and "\<not> fails (ItemsUpdateOne (item_id item))" and "\<not> fails (ItemsDeleteOne (item_id item))"
  shows "item_id item \<notin> item_id ` set (items (fst (finalize_writes fails item d)))"
proof -
  let ?d1 = "apply_write (SetCompleted (item_id item)) d"
  have "distinct (map item_id (items ?d1))"
    using assms(1) by (simp add: update_first_map_key)
  then have "item_id item \<notin> item_id ` set (items (apply_write (DeleteItem (item_id item)) ?d1))"
    by (rule ids_delete_item_gone)
  then show ?thesis by (simp add: finalize_writes_ok [OF assms(2,3)] del: apply_write.simps)
qed

lemma finalize_writes_failure_logged:
  assumes "fails (ItemsUpdateOne (item_id item)) \<or> fails (ItemsDeleteOne (item_id item))"
  shows "Log (ErrFinalize (name item)) \<in> set (snd (finalize_writes fails item d))"
  using assms by (auto simp: finalize_writes_def Let_def)

text \<open>
  C6, as the code has it. The claim that finalization first sets \<^verbatim>\<open>completed\<close>, then
  notifies, then deletes fails on the order: the two notifications come first, and
  \<^verbatim>\<open>completed\<close> is set only directly before the delete.
\<close>

theorem finalization_notifies_before_marking:
  "snd (sweep no_faults 61000
          (run [(no_faults, 0, Register 1 1), (no_faults, 0, Register 2 2),
                (no_faults, 0, CreateItemTimed 1 1 ''lamp'' 10 20 1 High),
                (no_faults, 5, BidTimed 2 2 ''lamp'' 15)] empty_db)) =
     [Send 2 (Won ''lamp'' 15), Send 1 (Ended ''lamp'' 15),
      Wrote (SetCompleted 0), Wrote (DeleteItem 0), Log (ItemDeleted ''lamp'')]
   \<and> hd (snd (sweep no_faults 61000
          (run [(no_faults, 0, Register 1 1), (no_faults, 0, Register 2 2),
                (no_faults, 0, CreateItemTimed 1 1 ''lamp'' 10 20 1 High),
                (no_faults, 5, BidTimed 2 2 ''lamp'' 15)] empty_db))) \<noteq> Wrote (SetCompleted 0)"
  by (simp add: handler_defs)

text \<open>
  C6, amended. Finalizing an expired, uncompleted item of a reachable database, when no
  call fails, performs in this order: the "won" message to the highest bidder (only when a
  highest bid exists and its bidder has a user record), the "ended" message to the creator
  (only when the creator has a user record) with the final amount (0 when no bid was
  placed), the update \<^verbatim>\<open>completed: true\<close>, the delete of the item record; afterwards no item
  record with that \<^verbatim>\<open>_id\<close> exists.
\<close>

theorem finalization_order:
  assumes "reachable d"
    and "endTime item = Some e" and "e \<le> now" and "\<not> completed item"
    and "\<And>u. \<not> fails (UsersFindOne u)" and "\<And>u. \<not> fails (SendMessage u)"
    and "\<not> fails (ItemsUpdateOne (item_id item))" and "\<not> fails (ItemsDeleteOne (item_id item))"
  shows "snd (checkAndFinalizeAuction fails now item d) =
           ((case highestBid item of
               Val hb \<Rightarrow> (case find_user (bid_userId hb) d of
                            Some winner \<Rightarrow> [Send (userId winner) (Won (name item) (amount hb))]
                          | None \<Rightarrow> [])
             | _ \<Rightarrow> [])
            @ (case find_user (creatorId item) d of
               Some creator \<Rightarrow>
                 [Send (userId creator)
                    (Ended (name item) (case highestBid item of Val hb \<Rightarrow> amount hb | _ \<Rightarrow> 0))]
             | None \<Rightarrow> [])
            @ [Wrote (SetCompleted (item_id item)), Wrote (DeleteItem (item_id item)),
               Log (ItemDeleted (name item))],
            Returned)
       \<and> find_item_by_id (item_id item) (fst (checkAndFinalizeAuction fails now item d)) = None"
proof -
  have dist: "distinct (map item_id (items d))"
    using reachable_wf [OF assms(1)] by (simp add: wf_db_def)
  have q: "checkAndFinalizeAuction fails now item d =
           (fst (finalize_writes fails item d),
            (case highestBid item of
               Val hb \<Rightarrow> (case find_user (bid_userId hb) d of
                            Some winner \<Rightarrow> [Send (userId winner) (Won (name item) (amount hb))]
                          | None \<Rightarrow> [])
             | _ \<Rightarrow> [])
            @ (case find_user (creatorId item) d of
               Some creator \<Rightarrow>
                 [Send (userId creator)
                    (Ended (name item) (case highestBid item of Val hb \<Rightarrow> amount hb | _ \<Rightarrow> 0))]
             | None \<Rightarrow> [])
            @ snd (finalize_writes fails item d),
            Returned)"
    by (rule checkAndFinalizeAuction_quiet [of fails, OF assms(5,6,2,3,4)])
  have gone: "item_id item \<notin> item_id ` set (items (fst (finalize_writes fails item d)))"
    by (rule finalize_writes_gone [OF dist assms(7,8)])
  show ?thesis
    using gone
    by (simp add: q find_item_by_id_None finalize_writes_ok [OF assms(7,8)]
          del: apply_write.simps)
qed

theorem finalization_order_witness:
  "snd (checkAndFinalizeAuction no_faults 61000
          \<lparr>item_id = 0, name = ''lamp'', creatorId = 1, lowAmount = 10, highAmount = 20,
           endTime = Some 60000,
           highestBid = Val \<lparr>itemId = 0, bid_userId = 2, amount = 15, timestamp = 5\<rparr>,
           completed = False, bidDirection = Some High\<rparr>
          (run [(no_faults, 0, Register 1 1), (no_faults, 0, Register 2 2),
                (no_faults, 0, CreateItemTimed 1 1 ''lamp'' 10 20 1 High),
                (no_faults, 5, BidTimed 2 2 ''lamp'' 15)] empty_db)) =
     ([Send 2 (Won ''lamp'' 15), Send 1 (Ended ''lamp'' 15),
       Wrote (SetCompleted 0), Wrote (DeleteItem 0), Log (ItemDeleted ''lamp'')], Returned)
   \<and> find_item_by_id 0 (fst (checkAndFinalizeAuction no_faults 61000
          \<lparr>item_id = 0, name = ''lamp'', creatorId = 1, lowAmount = 10, highAmount = 20,
           endTime = Some 60000,
           highestBid = Val \<lparr>itemId = 0, bid_userId = 2, amount = 15, timestamp = 5\<rparr>,
           completed = False, bidDirection = Some High\<rparr>
          (run [(no_faults, 0, Register 1 1), (no_faults, 0, Register 2 2),
                (no_faults, 0, CreateItemTimed 1 1 ''lamp'' 10 20 1 High),
                (no_faults, 5, BidTimed 2 2 ''lamp'' 15)] empty_db))) = None"
proof -
  let ?d = "run [(no_faults, 0, Register 1 1), (no_faults, 0, Register 2 2),
                (no_faults, 0, CreateItemTimed 1 1 ''lamp'' 10 20 1 High),
                (no_faults, 5, BidTimed 2 2 ''lamp'' 15)] empty_db"
  let ?item = "\<lparr>item_id = 0, name = ''lamp'', creatorId = 1, lowAmount = 10, highAmount = 20,
           endTime = Some 60000,
           highestBid = Val \<lparr>itemId = 0, bid_userId = 2, amount = 15, timestamp = 5\<rparr>,
           completed = False, bidDirection = Some High\<rparr>"
  have r: "reachable ?d" by (rule reachable_run [OF reachable_empty])
  have u: "find_user 2 ?d = Some \<lparr>userId = 2, chatId = 2\<rparr>"
    "find_user 1 ?d = Some \<lparr>userId = 1, chatId = 1\<rparr>"
    by (simp_all add: handler_defs)
  have "snd (checkAndFinalizeAuction no_faults 61000 ?item ?d) =
           ((case highestBid ?item of
               Val hb \<Rightarrow> (case find_user (bid_userId hb) ?d of
                            Some winner \<Rightarrow> [Send (userId winner) (Won (name ?item) (amount hb))]
                          | None \<Rightarrow> [])
             | _ \<Rightarrow> [])
            @ (case find_user (creatorId ?item) ?d of
               Some creator \<Rightarrow>
                 [Send (userId creator)
                    (Ended (name ?item) (case highestBid ?item of Val hb \<Rightarrow> amount hb | _ \<Rightarrow> 0))]
             | None \<Rightarrow> [])
            @ [Wrote (SetCompleted (item_id ?item)), Wrote (DeleteItem (item_id ?item)),
               Log (ItemDeleted (name ?item))],
            Returned)
       \<and> find_item_by_id (item_id ?item)
            (fst (checkAndFinalizeAuction no_faults 61000 ?item ?d)) = None"
    by (rule finalization_order [OF r, of _ 60000]) (simp_all add: no_faults_def)
  then show ?thesis by (simp add: handler_defs)
qed

section \<open>The sweep\<close>

lemma sweep_loop_quiet:
  assumes lookups: "\<And>u. \<not> fails (UsersFindOne u)" and sends: "\<And>u. \<not> fails (SendMessage u)"
    and wf: "wf_db d"
    and all_due: "\<forall>y \<in> set its. (\<exists>e. endTime y = Some e \<and> e \<le> now) \<and> \<not> completed y"
    and x: "x \<in> set its"
  shows "(fails (ItemsUpdateOne (item_id x)) \<or> fails (ItemsDeleteOne (item_id x)) \<longrightarrow>
            Log (ErrFinalize (name x)) \<in> set (snd (sweep_loop fails now its d)))
       \<and> (\<not> fails (ItemsUpdateOne (item_id x)) \<and> \<not> fails (ItemsDeleteOne (item_id x)) \<longrightarrow>
            Log (ItemDeleted (name x)) \<in> set (snd (sweep_loop fails now its d))
            \<and> item_id x \<notin> item_id ` set (items (fst (sweep_loop fails now its d))))"
  using wf all_due x
proof (induction its arbitrary: d)
  case Nil
  then show ?case by simp
next
  case (Cons item rest)
  from Cons.prems(2) obtain e where due: "endTime item = Some e" "e \<le> now" "\<not> completed item"
    by auto
  let ?d' = "fst (finalize_writes fails item d)"
  obtain ev where step: "checkAndFinalizeAuction fails now item d = (?d', ev, Returned)"
    and ev: "set (snd (finalize_writes fails item d)) \<subseteq> set ev"
    using checkAndFinalizeAuction_quiet [of fails item e now d, OF lookups sends due] by auto
  have wf': "wf_db ?d'" using Cons.prems(1) by (rule wf_finalize_writes)
  obtain d'' ev' where rest: "sweep_loop fails now rest ?d' = (d'', ev')"
    by (cases "sweep_loop fails now rest ?d'") auto
  have whole: "sweep_loop fails now (item # rest) d = (d'', ev @ ev')"
    using step rest by simp
  have ids: "item_id ` set (items d'') \<subseteq> item_id ` set (items ?d')"
    using sweep_loop_ids [of fails now rest ?d'] rest by simp
  show ?case
  proof (cases "x = item")
    case True
    have "Log (ErrFinalize (name item)) \<in> set ev"
      if "fails (ItemsUpdateOne (item_id item)) \<or> fails (ItemsDeleteOne (item_id item))"
      using finalize_writes_failure_logged [OF that, of d] ev by auto
    moreover have "Log (ItemDeleted (name item)) \<in> set ev
        \<and> item_id item \<notin> item_id ` set (items d'')"
      if ok: "\<not> fails (ItemsUpdateOne (item_id item))" "\<not> fails (ItemsDeleteOne (item_id item))"
    proof -
      have "distinct (map item_id (items d))" using Cons.prems(1) by (simp add: wf_db_def)
      then have "item_id item \<notin> item_id ` set (items ?d')"
        using ok by (rule finalize_writes_gone)
      moreover have "Log (ItemDeleted (name item)) \<in> set (snd (finalize_writes fails item d))"
        by (simp add: finalize_writes_ok [OF ok] del: apply_write.simps)
      ultimately show ?thesis using ids ev by auto
    qed
    ultimately show ?thesis using True by (auto simp: whole simp del: sweep_loop.simps)
  next
    case False
    with Cons.prems(3) have "x \<in> set rest" by simp
    with Cons.IH [OF wf'] Cons.prems(2) rest show ?thesis
      by (auto simp: whole simp del: sweep_loop.simps)
  qed
qed

text \<open>
  C7, as the code has it. The claim that a failure while finalizing one item (for example
  a user-lookup error) does not prevent the remaining matched items of the tick from being
  finalized fails: the lookups and messages of \<^verbatim>\<open>checkAndFinalizeAuction\<close> are outside its
  \<^verbatim>\<open>try\<close>, so the error leaves the \<^verbatim>\<open>for\<close> loop and is caught by the sweep. Two items are
  due; the lookup of the first item's creator fails; the second item, none of whose calls
  fails, is left in the database.
\<close>

theorem lookup_failure_stops_the_sweep:
  "sweep (\<lambda>c. c = UsersFindOne 1) 200000
     (run [(no_faults, 0, Register 1 1), (no_faults, 0, Register 2 2),
           (no_faults, 0, CreateItemTimed 1 1 ''lamp'' 10 20 1 High),
           (no_faults, 0, CreateItemTimed 2 2 ''vase'' 10 20 1 Low)] empty_db) =
     (run [(no_faults, 0, Register 1 1), (no_faults, 0, Register 2 2),
           (no_faults, 0, CreateItemTimed 1 1 ''lamp'' 10 20 1 High),
           (no_faults, 0, CreateItemTimed 2 2 ''vase'' 10 20 1 Low)] empty_db,
      [Log ErrSweep])
   \<and> map name (expired_query 200000
        (run [(no_faults, 0, Register 1 1), (no_faults, 0, Register 2 2),
              (no_faults, 0, CreateItemTimed 1 1 ''lamp'' 10 20 1 High),
              (no_faults, 0, CreateItemTimed 2 2 ''vase'' 10 20 1 Low)] empty_db)) =
       [''lamp'', ''vase'']
   \<and> map name (items (fst (sweep (\<lambda>c. c = UsersFindOne 1) 200000
        (run [(no_faults, 0, Register 1 1), (no_faults, 0, Register 2 2),
              (no_faults, 0, CreateItemTimed 1 1 ''lamp'' 10 20 1 High),
              (no_faults, 0, CreateItemTimed 2 2 ''vase'' 10 20 1 Low)] empty_db)))) =
       [''lamp'', ''vase'']"
  by (simp add: handler_defs)

text \<open>
  C7, amended. Within one sweep of a reachable database in which the query, the user
  lookups and the messages do not fail: a failure of the \<^verbatim>\<open>completed\<close> update or of the
  delete of a matched item \<open>y\<close> is logged, and every matched item \<open>x\<close> whose own update and
  delete do not fail is still finalized in the same tick: its deletion is logged and no
  item record with its \<^verbatim>\<open>_id\<close> remains.
\<close>

theorem sweep_survives_write_failures:
  assumes "reachable d" and "\<not> fails ItemsFind"
    and "\<And>u. \<not> fails (UsersFindOne u)" and "\<And>u. \<not> fails (SendMessage u)"
    and "x \<in> set (expired_query now d)"
    and "\<not> fails (ItemsUpdateOne (item_id x))" and "\<not> fails (ItemsDeleteOne (item_id x))"
    and "y \<in> set (expired_query now d)"
    and "fails (ItemsUpdateOne (item_id y)) \<or> fails (ItemsDeleteOne (item_id y))"
  shows "Log (ErrFinalize (name y)) \<in> set (snd (sweep fails now d))
       \<and> Log (ItemDeleted (name x)) \<in> set (snd (sweep fails now d))
       \<and> find_item_by_id (item_id x) (fst (sweep fails now d)) = None"
proof -
  have wf: "wf_db d" using assms(1) by (rule reachable_wf)
  have due: "\<forall>z \<in> set (expired_query now d).
               (\<exists>e. endTime z = Some e \<and> e \<le> now) \<and> \<not> completed z"
    by (auto simp: expired_query_def split: option.splits)
  have s: "sweep fails now d = sweep_loop fails now (expired_query now d) d"
    using assms(2) by (simp add: sweep_def)
  show ?thesis
    using sweep_loop_quiet [of fails d "expired_query now d" now x, OF assms(3,4) wf due assms(5)]
      sweep_loop_quiet [of fails d "expired_query now d" now y, OF assms(3,4) wf due assms(8)]
      assms(6,7,9)
    by (simp add: s find_item_by_id_None)
qed

theorem sweep_survives_write_failures_witness:
  "Log (ErrFinalize ''lamp'') \<in> set (snd (sweep (\<lambda>c. c = ItemsUpdateOne 0) 200000
     (run [(no_faults, 0, Register 1 1), (no_faults, 0, Register 2 2),
           (no_faults, 0, CreateItemTimed 1 1 ''lamp'' 10 20 1 High),
           (no_faults, 0, CreateItemTimed 2 2 ''vase'' 10 20 1 Low)] empty_db)))
   \<and> Log (ItemDeleted ''vase'') \<in> set (snd (sweep (\<lambda>c. c = ItemsUpdateOne 0) 200000
     (run [(no_faults, 0, Register 1 1), (no_faults, 0, Register 2 2),
           (no_faults, 0, CreateItemTimed 1 1 ''lamp'' 10 20 1 High),
           (no_faults, 0, CreateItemTimed 2 2 ''vase'' 10 20 1 Low)] empty_db)))
   \<and> find_item_by_id 1 (fst (sweep (\<lambda>c. c = ItemsUpdateOne 0) 200000
     (run [(no_faults, 0, Register 1 1), (no_faults, 0, Register 2 2),
           (no_faults, 0, CreateItemTimed 1 1 ''lamp'' 10 20 1 High),
           (no_faults, 0, CreateItemTimed 2 2 ''vase'' 10 20 1 Low)] empty_db))) = None"
proof -
  let ?d = "run [(no_faults, 0, Register 1 1), (no_faults, 0, Register 2 2),
           (no_faults, 0, CreateItemTimed 1 1 ''lamp'' 10 20 1 High),
           (no_faults, 0, CreateItemTimed 2 2 ''vase'' 10 20 1 Low)] empty_db"
  let ?lamp = "\<lparr>item_id = 0, name = ''lamp'', creatorId = 1, lowAmount = 10, highAmount = 20,
           endTime = Some 60000, highestBid = Null, completed = False,
           bidDirection = Some High\<rparr>"
  let ?vase = "\<lparr>item_id = 1, name = ''vase'', creatorId = 2, lowAmount = 10, highAmount = 20,
           endTime = Some 60000, highestBid = Null, completed = False,
           bidDirection = Some Low\<rparr>"
  have r: "reachable ?d" by (rule reachable_run [OF reachable_empty])
  have q: "expired_query 200000 ?d = [?lamp, ?vase]" by (simp add: handler_defs)
  have x: "?vase \<in> set (expired_query 200000 ?d)" and y: "?lamp \<in> set (expired_query 200000 ?d)"
    unfolding q by simp_all
  have "Log (ErrFinalize (name ?lamp)) \<in> set (snd (sweep (\<lambda>c. c = ItemsUpdateOne 0) 200000 ?d))
       \<and> Log (ItemDeleted (name ?vase)) \<in> set (snd (sweep (\<lambda>c. c = ItemsUpdateOne 0) 200000 ?d))
       \<and> find_item_by_id (item_id ?vase) (fst (sweep (\<lambda>c. c = ItemsUpdateOne 0) 200000 ?d)) = None"
    by (rule sweep_survives_write_failures [OF r _ _ _ x _ _ y]) simp_all
  then show ?thesis by simp
qed

section \<open>The bid transaction\<close>

text \<open>The transaction either leaves the database alone or applies both writes.\<close>

lemma bid_transaction_cases:
  "fst (bid_transaction dest fails now chat uid n a item d) = d
     \<and> Send chat (BidPlaced a n) \<notin> set (snd (bid_transaction dest fails now chat uid n a item d))
   \<or> (\<exists>w. find_item_by_id (item_id item) d = Some w
          \<and> \<not> (case highestBid w of Val hb \<Rightarrow> a \<le> amount hb | _ \<Rightarrow> False)
          \<and> fst (bid_transaction dest fails now chat uid n a item d) =
              commit [InsertBid \<lparr>itemId = item_id item, bid_userId = uid, amount = a,
                                  timestamp = now\<rparr>,
                      SetHighestBid (item_id item) \<lparr>itemId = item_id item, bid_userId = uid,
                                  amount = a, timestamp = now\<rparr>] d
          \<and> Send chat (BidPlaced a n) \<in> set (snd (bid_transaction dest fails now chat uid n a item d)))"
proof (cases "Send chat (BidPlaced a n) \<in> set (snd (bid_transaction dest fails now chat uid n a item d))")
  case True
  from bid_transaction_committed [OF True] obtain w sent where
    w: "find_item_by_id (item_id item) d = Some w"
    and h: "\<not> (case highestBid w of Val hb \<Rightarrow> a \<le> amount hb | _ \<Rightarrow> False)"
    and r: "bid_transaction dest fails now chat uid n a item d =
               (commit [InsertBid \<lparr>itemId = item_id w, bid_userId = uid, amount = a,
                                    timestamp = now\<rparr>,
                        SetHighestBid (item_id w) \<lparr>itemId = item_id w, bid_userId = uid,
                                    amount = a, timestamp = now\<rparr>] d,
                sent @ [Wrote (InsertBid \<lparr>itemId = item_id w, bid_userId = uid, amount = a,
                                    timestamp = now\<rparr>),
                        Wrote (SetHighestBid (item_id w) \<lparr>itemId = item_id w,
                                    bid_userId = uid, amount = a, timestamp = now\<rparr>),
                        Send chat (BidPlaced a n)])"
    by blast
  have "item_id w = item_id item" by (rule find_item_by_id_id [OF w])
  with w h r True show ?thesis by simp
next
  case False
  have "fst (bid_transaction dest fails now chat uid n a item d) = d"
  proof (cases "find_item_by_id (item_id item) d")
    case None
    then show ?thesis by (simp add: bid_transaction_def bid_caught_def)
  next
    case (Some w)
    with False show ?thesis
      by (auto simp: bid_transaction_def bid_caught_def Let_def split: if_splits option.splits)
  qed
  with False show ?thesis by simp
qed

lemma bid_transaction_says_too_low:
  assumes "Send chat (TooLow t) \<in> set (snd (bid_transaction dest fails now chat uid n a item d))"
  shows "bid_transaction dest fails now chat uid n a item d = (d, [Send chat (TooLow t)])"
proof (cases "find_item_by_id (item_id item) d")
  case None
  with assms show ?thesis by (simp add: bid_transaction_def bid_caught_def split: if_splits)
next
  case (Some w)
  have no: "Send chat (TooLow t) \<notin> set sent"
    if "notify_previous dest fails n a w d = Some sent" for sent
    using that
    by (auto simp: notify_previous_def split: field.splits if_splits option.splits)
  show ?thesis
  proof (cases "notify_previous dest fails n a w d")
    case None
    with assms Some show ?thesis
      by (simp add: bid_transaction_def bid_caught_def Let_def split: if_splits)
  next
    case (Some sent)
    with assms \<open>find_item_by_id (item_id item) d = Some w\<close> no [OF Some]
    show ?thesis
      by (simp add: bid_transaction_def bid_caught_def Let_def split: if_splits)
  qed
qed

lemma commit_bid:
  "commit [InsertBid b, SetHighestBid i b] d =
     d\<lparr>bids := bids d @ [b],
       items := update_first (\<lambda>x. item_id x = i) (\<lambda>x. x\<lparr>highestBid := Val b\<rparr>) (items d)\<rparr>"
  by (simp add: commit_def)

lemma commit_bid_find:
  "find_item_by_id i d = Some w \<Longrightarrow>
     find_item_by_id i (commit [InsertBid b, SetHighestBid i b] d) = Some (w\<lparr>highestBid := Val b\<rparr>)"
  using find_update_first [of item_id "\<lambda>x. x\<lparr>highestBid := Val b\<rparr>" i "items d"]
  by (simp add: commit_bid find_item_by_id_def)

lemma commit_bid_log:
  "itemId b = i \<Longrightarrow>
     item_log i (commit [InsertBid b, SetHighestBid i b] d) = item_log i d @ [b]"
  by (simp add: commit_bid item_log_def)

lemma bid_simple_through:
  "(\<exists>m. bid_simple fails now chat uid n a d = (d, [Send chat m]) \<and> m \<noteq> BidPlaced a n
          \<and> (\<forall>t. m \<noteq> TooLow t))
   \<or> bid_simple fails now chat uid n a d = bid_caught chat d
   \<or> (\<exists>item. find_item_by_name n d = Some item
         \<and> bid_simple fails now chat uid n a d =
             bid_transaction chatId fails now chat uid n a item d)"
  by (auto simp: bid_simple_def split: option.splits)

lemma bid_timed_through:
  "(\<exists>m. bid_timed fails now chat uid n a d = (d, [Send chat m]) \<and> m \<noteq> BidPlaced a n
          \<and> (\<forall>t. m \<noteq> TooLow t))
   \<or> bid_timed fails now chat uid n a d = bid_caught chat d
   \<or> (\<exists>item. find_item_by_name n d = Some item
         \<and> bid_timed fails now chat uid n a d =
             bid_transaction userId fails now chat uid n a item d)"
  by (auto simp: bid_timed_def split: option.splits)

text \<open>
  C2. In every reachable state the amounts of an item's bid log increase strictly, and the
  item's \<open>highestBid\<close> is the last entry of that log (\<^verbatim>\<open>null\<close> when the log is empty): the
  log is the sequence of values \<open>highestBid\<close> has taken. A bid whose amount is not above
  the current highest amount is rejected: the database is unchanged, and when the read and
  the abort do not fail the answer is "Your bid must be higher than the current highest
  bid" and nothing else. When the transaction changes the database, the new amount is strictly above the
  current highest amount (if there is one), the new bid is appended to the item's log and
  becomes its \<open>highestBid\<close>, and the log still increases strictly. This holds for any
  fault setting and for any earlier read \<open>item\<close> of the document.
\<close>

theorem highest_bid_strictly_increasing:
  assumes "reachable d" and "find_item_by_id (item_id item) d = Some w"
  shows "sorted_wrt (<) (map amount (item_log (item_id item) d))
       \<and> highestBid w =
           (if item_log (item_id item) d = [] then Null
            else Val (last (item_log (item_id item) d)))
       \<and> (\<forall>hb. highestBid w = Val hb \<and> a \<le> amount hb \<longrightarrow>
             fst (bid_transaction dest fails now chat uid n a item d) = d
             \<and> (\<not> fails StartTransaction \<and> \<not> fails (ItemsFindOneById (item_id item))
                \<and> \<not> fails AbortTransaction \<longrightarrow>
                  snd (bid_transaction dest fails now chat uid n a item d) =
                    [Send chat (TooLow (amount hb))]))
       \<and> (fst (bid_transaction dest fails now chat uid n a item d) \<noteq> d \<longrightarrow>
             (\<forall>hb. highestBid w = Val hb \<longrightarrow> amount hb < a)
             \<and> find_item_by_id (item_id item)
                 (fst (bid_transaction dest fails now chat uid n a item d)) =
                 Some (w\<lparr>highestBid := Val \<lparr>itemId = item_id item, bid_userId = uid,
                                               amount = a, timestamp = now\<rparr>\<rparr>)
             \<and> item_log (item_id item) (fst (bid_transaction dest fails now chat uid n a item d)) =
                 item_log (item_id item) d @
                   [\<lparr>itemId = item_id item, bid_userId = uid, amount = a, timestamp = now\<rparr>]
             \<and> sorted_wrt (<) (map amount (item_log (item_id item)
                 (fst (bid_transaction dest fails now chat uid n a item d)))))"
proof -
  let ?r = "bid_transaction dest fails now chat uid n a item d"
  let ?b = "\<lparr>itemId = item_id item, bid_userId = uid, amount = a, timestamp = now\<rparr>"
  have wf: "wf_db d" using assms(1) by (rule reachable_wf)
  have sorted: "sorted_wrt (<) (map amount (item_log (item_id item) d))"
    using wf by (simp add: wf_db_def)
  have "w \<in> set (items d)" and w_id: "item_id w = item_id item"
    using assms(2) by (auto simp: find_item_by_id_def find_Some_iff)
  then have "synced d w" using wf by (simp add: wf_db_def list_all_iff)
  then have sync: "highestBid w =
      (if item_log (item_id item) d = [] then Null else Val (last (item_log (item_id item) d)))"
    by (simp add: synced_def w_id)
  have low: "\<forall>hb. highestBid w = Val hb \<and> a \<le> amount hb \<longrightarrow>
             fst ?r = d
             \<and> (\<not> fails StartTransaction \<and> \<not> fails (ItemsFindOneById (item_id item))
                \<and> \<not> fails AbortTransaction \<longrightarrow>
                  snd ?r = [Send chat (TooLow (amount hb))])"
    using assms(2) by (auto simp: bid_transaction_def bid_caught_def)
  have changed: "(\<forall>hb. highestBid w = Val hb \<longrightarrow> amount hb < a)
             \<and> find_item_by_id (item_id item) (fst ?r) = Some (w\<lparr>highestBid := Val ?b\<rparr>)
             \<and> item_log (item_id item) (fst ?r) = item_log (item_id item) d @ [?b]
             \<and> sorted_wrt (<) (map amount (item_log (item_id item) (fst ?r)))"
    if "fst ?r \<noteq> d"
  proof -
    from bid_transaction_cases [of dest fails now chat uid n a item d] that assms(2)
    have h: "\<not> (case highestBid w of Val hb \<Rightarrow> a \<le> amount hb | _ \<Rightarrow> False)"
      and r: "fst ?r = commit [InsertBid ?b, SetHighestBid (item_id item) ?b] d"
      by auto
    have "wf_db (fst ?r)" using wf by (rule wf_bid_transaction)
    then have "sorted_wrt (<) (map amount (item_log (item_id item) (fst ?r)))"
      by (simp add: wf_db_def)
    moreover have "\<forall>hb. highestBid w = Val hb \<longrightarrow> amount hb < a"
      using h by auto
    ultimately show ?thesis
      using commit_bid_find [OF assms(2), of ?b] commit_bid_log [of ?b "item_id item" d]
      by (simp add: r)
  qed
  show ?thesis using sorted sync low changed by blast
qed

theorem highest_bid_strictly_increasing_witness:
  "map amount (item_log 0 (fst (bid_transaction chatId no_faults 6 1 1 ''lamp'' 15
      \<lparr>item_id = 0, name = ''lamp'', creatorId = 1, lowAmount = 10, highAmount = 20,
       endTime = None,
       highestBid = Val \<lparr>itemId = 0, bid_userId = 2, amount = 12, timestamp = 5\<rparr>,
       completed = False, bidDirection = None\<rparr>
      (run [(no_faults, 0, Register 1 1), (no_faults, 0, Register 2 2),
            (no_faults, 0, CreateItem 1 1 ''lamp'' 10 20),
            (no_faults, 5, Bid 2 2 ''lamp'' 12)] empty_db)))) = [12, 15]
   \<and> bid_transaction chatId no_faults 7 1 1 ''lamp'' 12
      \<lparr>item_id = 0, name = ''lamp'', creatorId = 1, lowAmount = 10, highAmount = 20,
       endTime = None,
       highestBid = Val \<lparr>itemId = 0, bid_userId = 2, amount = 12, timestamp = 5\<rparr>,
       completed = False, bidDirection = None\<rparr>
      (run [(no_faults, 0, Register 1 1), (no_faults, 0, Register 2 2),
            (no_faults, 0, CreateItem 1 1 ''lamp'' 10 20),
            (no_faults, 5, Bid 2 2 ''lamp'' 12)] empty_db) =
     (run [(no_faults, 0, Register 1 1), (no_faults, 0, Register 2 2),
            (no_faults, 0, CreateItem 1 1 ''lamp'' 10 20),
            (no_faults, 5, Bid 2 2 ''lamp'' 12)] empty_db, [Send 1 (TooLow 12)])"
proof -
  let ?d = "run [(no_faults, 0, Register 1 1), (no_faults, 0, Register 2 2),
            (no_faults, 0, CreateItem 1 1 ''lamp'' 10 20),
            (no_faults, 5, Bid 2 2 ''lamp'' 12)] empty_db"
  let ?w = "\<lparr>item_id = 0, name = ''lamp'', creatorId = 1, lowAmount = 10, highAmount = 20,
       endTime = None,
       highestBid = Val \<lparr>itemId = 0, bid_userId = 2, amount = 12, timestamp = 5\<rparr>,
       completed = False, bidDirection = None\<rparr>"
  have r: "reachable ?d" by (rule reachable_run [OF reachable_empty])
  have f: "find_item_by_id (item_id ?w) ?d = Some ?w" by (simp add: handler_defs)
  have log: "item_log (item_id ?w) ?d = [\<lparr>itemId = 0, bid_userId = 2, amount = 12, timestamp = 5\<rparr>]"
    by (simp add: handler_defs item_log_def)
  have changes: "fst (bid_transaction chatId no_faults 6 1 1 ''lamp'' 15 ?w ?d) \<noteq> ?d"
    by (simp add: handler_defs)
  note up = highest_bid_strictly_increasing [OF r f, of 15 chatId no_faults 6 1 1 "''lamp''"]
  note down = highest_bid_strictly_increasing [OF r f, of 12 chatId no_faults 7 1 1 "''lamp''"]
  have a: "item_log (item_id ?w) (fst (bid_transaction chatId no_faults 6 1 1 ''lamp'' 15 ?w ?d)) =
             item_log (item_id ?w) ?d
               @ [\<lparr>itemId = item_id ?w, bid_userId = 1, amount = 15, timestamp = 6\<rparr>]"
    using up changes by blast
  have "highestBid ?w = Val \<lparr>itemId = 0, bid_userId = 2, amount = 12, timestamp = 5\<rparr>
        \<and> (12::nat) \<le> amount \<lparr>itemId = 0, bid_userId = 2, amount = 12, timestamp = 5\<rparr>"
    by simp
  moreover have "\<not> no_faults StartTransaction \<and> \<not> no_faults (ItemsFindOneById (item_id ?w))
      \<and> \<not> no_faults AbortTransaction"
    by (simp add: no_faults_def)
  ultimately have b: "fst (bid_transaction chatId no_faults 7 1 1 ''lamp'' 12 ?w ?d) = ?d"
    "snd (bid_transaction chatId no_faults 7 1 1 ''lamp'' 12 ?w ?d) =
       [Send 1 (TooLow (amount \<lparr>itemId = 0, bid_userId = 2, amount = 12, timestamp = 5\<rparr>))]"
    using down by blast+
  have "bid_transaction chatId no_faults 7 1 1 ''lamp'' 12 ?w ?d = (?d, [Send 1 (TooLow 12)])"
    using b by (simp add: prod_eq_iff)
  moreover have "map amount (item_log 0 (fst (bid_transaction chatId no_faults 6 1 1 ''lamp'' 15 ?w ?d)))
      = [12, 15]"
    using a log by simp
  ultimately show ?thesis by blast
qed

lemma bid_handler_all_or_nothing:
  assumes through:
    "(\<exists>m. r = (d, [Send chat m]) \<and> m \<noteq> BidPlaced a n \<and> (\<forall>t. m \<noteq> TooLow t))
     \<or> r = bid_caught chat d
     \<or> (\<exists>item. find_item_by_name n d = Some item
           \<and> r = bid_transaction dest fails now chat uid n a item d)"
  shows "(fst r = d \<and> Send chat (BidPlaced a n) \<notin> set (snd r)
          \<or> (\<exists>item. find_item_by_name n d = Some item
               \<and> fst r = d\<lparr>bids := bids d @ [\<lparr>itemId = item_id item, bid_userId = uid,
                                                 amount = a, timestamp = now\<rparr>],
                            items := update_first (\<lambda>x. item_id x = item_id item)
                              (\<lambda>x. x\<lparr>highestBid := Val \<lparr>itemId = item_id item,
                                     bid_userId = uid, amount = a, timestamp = now\<rparr>\<rparr>)
                              (items d)\<rparr>
               \<and> Send chat (BidPlaced a n) \<in> set (snd r)))
       \<and> (Send chat (TooLow t) \<in> set (snd r) \<longrightarrow> r = (d, [Send chat (TooLow t)]))"
proof -
  consider (reply) m where "r = (d, [Send chat m])" "m \<noteq> BidPlaced a n" "\<forall>t. m \<noteq> TooLow t"
    | (caught) "r = bid_caught chat d"
    | (txn) item where "find_item_by_name n d = Some item"
        "r = bid_transaction dest fails now chat uid n a item d"
    using through by blast
  then show ?thesis
  proof cases
    case reply
    then show ?thesis by auto
  next
    case caught
    then show ?thesis by (simp add: bid_caught_def)
  next
    case txn
    have low: "r = (d, [Send chat (TooLow t)])" if "Send chat (TooLow t) \<in> set (snd r)"
      using bid_transaction_says_too_low [of chat t dest fails now uid n a item d] that txn(2)
      by simp
    from bid_transaction_cases [of dest fails now chat uid n a item d]
    show ?thesis
    proof
      assume "fst (bid_transaction dest fails now chat uid n a item d) = d
        \<and> Send chat (BidPlaced a n) \<notin> set (snd (bid_transaction dest fails now chat uid n a item d))"
      with txn low show ?thesis by simp
    next
      assume "\<exists>w. find_item_by_id (item_id item) d = Some w
          \<and> \<not> (case highestBid w of Val hb \<Rightarrow> a \<le> amount hb | _ \<Rightarrow> False)
          \<and> fst (bid_transaction dest fails now chat uid n a item d) =
              commit [InsertBid \<lparr>itemId = item_id item, bid_userId = uid, amount = a,
                                  timestamp = now\<rparr>,
                      SetHighestBid (item_id item) \<lparr>itemId = item_id item, bid_userId = uid,
                                  amount = a, timestamp = now\<rparr>] d
          \<and> Send chat (BidPlaced a n) \<in> set (snd (bid_transaction dest fails now chat uid n a item d))"
      then have "fst r = d\<lparr>bids := bids d @ [\<lparr>itemId = item_id item, bid_userId = uid,
                                                 amount = a, timestamp = now\<rparr>],
                            items := update_first (\<lambda>x. item_id x = item_id item)
                              (\<lambda>x. x\<lparr>highestBid := Val \<lparr>itemId = item_id item,
                                     bid_userId = uid, amount = a, timestamp = now\<rparr>\<rparr>)
                              (items d)\<rparr>"
        and "Send chat (BidPlaced a n) \<in> set (snd r)"
        using txn(2) by (auto simp: commit_bid)
      with txn(1) low show ?thesis by blast
    qed
  qed
qed

text \<open>
  C3. In every reachable state each item agrees with the bid log: its \<open>highestBid\<close> is the
  last logged bid for it, or \<^verbatim>\<open>null\<close> when none is logged. Each /bid, in both programs and
  under any faults, either leaves the database as it is and does not answer "has been
  placed", or appends the new bid to the log and overwrites the item's \<open>highestBid\<close> with
  that same bid, both together, and answers "has been placed"; and whenever it answers
  "Your bid must be higher ...", the database is unchanged and this is its only effect.
  (The two writes are issued with \<^verbatim>\<open>{ session }\<close>; the model holds them back until the
  commit, as the driver's transaction does.)
\<close>

theorem bid_commit_is_atomic:
  assumes "reachable d" and "x \<in> set (items d)"
  shows "highestBid x =
           (if item_log (item_id x) d = [] then Null else Val (last (item_log (item_id x) d)))
       \<and> (fst (bid_simple fails now chat uid n a d) = d
            \<and> Send chat (BidPlaced a n) \<notin> set (snd (bid_simple fails now chat uid n a d))
          \<or> (\<exists>item. find_item_by_name n d = Some item
               \<and> fst (bid_simple fails now chat uid n a d) =
                   d\<lparr>bids := bids d @ [\<lparr>itemId = item_id item, bid_userId = uid,
                                          amount = a, timestamp = now\<rparr>],
                     items := update_first (\<lambda>x. item_id x = item_id item)
                       (\<lambda>x. x\<lparr>highestBid := Val \<lparr>itemId = item_id item,
                              bid_userId = uid, amount = a, timestamp = now\<rparr>\<rparr>)
                       (items d)\<rparr>
               \<and> Send chat (BidPlaced a n) \<in> set (snd (bid_simple fails now chat uid n a d))))
       \<and> (Send chat (TooLow t) \<in> set (snd (bid_simple fails now chat uid n a d)) \<longrightarrow>
            bid_simple fails now chat uid n a d = (d, [Send chat (TooLow t)]))
       \<and> (fst (bid_timed fails now chat uid n a d) = d
            \<and> Send chat (BidPlaced a n) \<notin> set (snd (bid_timed fails now chat uid n a d))
          \<or> (\<exists>item. find_item_by_name n d = Some item
               \<and> fst (bid_timed fails now chat uid n a d) =
                   d\<lparr>bids := bids d @ [\<lparr>itemId = item_id item, bid_userId = uid,
                                          amount = a, timestamp = now\<rparr>],
                     items := update_first (\<lambda>x. item_id x = item_id item)
                       (\<lambda>x. x\<lparr>highestBid := Val \<lparr>itemId = item_id item,
                              bid_userId = uid, amount = a, timestamp = now\<rparr>\<rparr>)
                       (items d)\<rparr>
               \<and> Send chat (BidPlaced a n) \<in> set (snd (bid_timed fails now chat uid n a d))))
       \<and> (Send chat (TooLow t) \<in> set (snd (bid_timed fails now chat uid n a d)) \<longrightarrow>
            bid_timed fails now chat uid n a d = (d, [Send chat (TooLow t)]))"
proof -
  have "synced d x"
    using reachable_wf [OF assms(1)] assms(2) by (simp add: wf_db_def list_all_iff)
  then have "highestBid x =
           (if item_log (item_id x) d = [] then Null else Val (last (item_log (item_id x) d)))"
    by (simp add: synced_def)
  then show ?thesis
    using bid_handler_all_or_nothing [OF bid_simple_through [of fails now chat uid n a d], of t]
      bid_handler_all_or_nothing [OF bid_timed_through [of fails now chat uid n a d], of t]
    by simp
qed

theorem bid_commit_is_atomic_witness:
  "fst (bid_simple no_faults 6 1 1 ''lamp'' 15
      (run [(no_faults, 0, Register 1 1), (no_faults, 0, Register 2 2),
            (no_faults, 0, CreateItem 1 1 ''lamp'' 10 20),
            (no_faults, 5, Bid 2 2 ''lamp'' 12)] empty_db)) =
     (run [(no_faults, 0, Register 1 1), (no_faults, 0, Register 2 2),
            (no_faults, 0, CreateItem 1 1 ''lamp'' 10 20),
            (no_faults, 5, Bid 2 2 ''lamp'' 12)] empty_db)
       \<lparr>bids := [\<lparr>itemId = 0, bid_userId = 2, amount = 12, timestamp = 5\<rparr>,
                 \<lparr>itemId = 0, bid_userId = 1, amount = 15, timestamp = 6\<rparr>],
        items := [\<lparr>item_id = 0, name = ''lamp'', creatorId = 1, lowAmount = 10,
                   highAmount = 20, endTime = None,
                   highestBid = Val \<lparr>itemId = 0, bid_userId = 1, amount = 15, timestamp = 6\<rparr>,
                   completed = False, bidDirection = None\<rparr>]\<rparr>
   \<and> bid_simple no_faults 7 1 1 ''lamp'' 12
      (run [(no_faults, 0, Register 1 1), (no_faults, 0, Register 2 2),
            (no_faults, 0, CreateItem 1 1 ''lamp'' 10 20),
            (no_faults, 5, Bid 2 2 ''lamp'' 12)] empty_db) =
     (run [(no_faults, 0, Register 1 1), (no_faults, 0, Register 2 2),
            (no_faults, 0, CreateItem 1 1 ''lamp'' 10 20),
            (no_faults, 5, Bid 2 2 ''lamp'' 12)] empty_db, [Send 1 (TooLow 12)])"
proof -
  let ?d = "run [(no_faults, 0, Register 1 1), (no_faults, 0, Register 2 2),
            (no_faults, 0, CreateItem 1 1 ''lamp'' 10 20),
            (no_faults, 5, Bid 2 2 ''lamp'' 12)] empty_db"
  let ?w = "\<lparr>item_id = 0, name = ''lamp'', creatorId = 1, lowAmount = 10, highAmount = 20,
       endTime = None,
       highestBid = Val \<lparr>itemId = 0, bid_userId = 2, amount = 12, timestamp = 5\<rparr>,
       completed = False, bidDirection = None\<rparr>"
  have r: "reachable ?d" by (rule reachable_run [OF reachable_empty])
  have its: "items ?d = [?w]"
    and bs: "bids ?d = [\<lparr>itemId = 0, bid_userId = 2, amount = 12, timestamp = 5\<rparr>]"
    by (simp_all add: handler_defs)
  have x: "?w \<in> set (items ?d)" unfolding its by simp
  have f: "find_item_by_name ''lamp'' ?d = Some ?w"
    unfolding find_item_by_name_def its by simp
  have placed: "Send 1 (BidPlaced 15 ''lamp'') \<in> set (snd (bid_simple no_faults 6 1 1 ''lamp'' 15 ?d))"
    by (simp add: handler_defs)
  have low: "Send 1 (TooLow 12) \<in> set (snd (bid_simple no_faults 7 1 1 ''lamp'' 12 ?d))"
    by (simp add: handler_defs)
  note up = bid_commit_is_atomic [OF r x, of no_faults 6 1 1 "''lamp''" 15 12]
  note down = bid_commit_is_atomic [OF r x, of no_faults 7 1 1 "''lamp''" 12 12]
  from up placed f
  have "fst (bid_simple no_faults 6 1 1 ''lamp'' 15 ?d) =
          ?d\<lparr>bids := bids ?d @ [\<lparr>itemId = item_id ?w, bid_userId = 1, amount = 15,
                                  timestamp = 6\<rparr>],
             items := update_first (\<lambda>x. item_id x = item_id ?w)
               (\<lambda>x. x\<lparr>highestBid := Val \<lparr>itemId = item_id ?w, bid_userId = 1, amount = 15,
                                             timestamp = 6\<rparr>\<rparr>) (items ?d)\<rparr>"
    by auto
  then have a: "fst (bid_simple no_faults 6 1 1 ''lamp'' 15 ?d) =
     ?d\<lparr>bids := [\<lparr>itemId = 0, bid_userId = 2, amount = 12, timestamp = 5\<rparr>,
                 \<lparr>itemId = 0, bid_userId = 1, amount = 15, timestamp = 6\<rparr>],
        items := [\<lparr>item_id = 0, name = ''lamp'', creatorId = 1, lowAmount = 10,
                   highAmount = 20, endTime = None,
                   highestBid = Val \<lparr>itemId = 0, bid_userId = 1, amount = 15, timestamp = 6\<rparr>,
                   completed = False, bidDirection = None\<rparr>]\<rparr>"
    unfolding its bs by simp
  from down low have b: "bid_simple no_faults 7 1 1 ''lamp'' 12 ?d = (?d, [Send 1 (TooLow 12)])"
    by blast
  from a b show ?thesis by blast
qed

section \<open>Bids and the item's range\<close>

lemma same_id_same_item:
  assumes "distinct (map item_id xs)" and "x \<in> set xs" and "y \<in> set xs"
    and "item_id x = item_id y"
  shows "x = y"
  using assms by (meson distinct_map inj_on_eq_iff)

lemma range_update_items:
  assumes "list_all in_range (items d)" and "\<And>x. in_range (f x) = in_range x"
  shows "list_all in_range (update_first P f (items d))"
proof -
  have "in_range y" if "y \<in> set (update_first P f (items d))" for y
    using update_first_set [OF that] assms by (auto simp: list_all_iff)
  then show ?thesis by (simp add: list_all_iff)
qed

lemma range_finalize_writes:
  "list_all in_range (items d) \<Longrightarrow> list_all in_range (items (fst (finalize_writes fails item d)))"
proof -
  assume r: "list_all in_range (items d)"
  have "in_range (x\<lparr>completed := True\<rparr>) = in_range x" for x
    by (simp add: in_range_def split: field.splits)
  then have u: "list_all in_range (items (apply_write (SetCompleted (item_id item)) d))"
    using range_update_items [OF r] by simp
  have "list_all in_range (items (apply_write (DeleteItem i) d'))"
    if "list_all in_range (items d')" for i d'
    using that by (auto simp: list_all_iff dest: delete_first_set)
  from this [OF u] r u show ?thesis
    by (simp add: finalize_writes_def Let_def del: apply_write.simps)
qed

lemma range_checkAndFinalizeAuction:
  "list_all in_range (items d) \<Longrightarrow>
     list_all in_range (items (fst (checkAndFinalizeAuction fails now item d)))"
  using range_finalize_writes [of d fails item]
  by (auto simp: checkAndFinalizeAuction_def split: prod.splits outcome.splits)

lemma range_sweep_loop:
  "list_all in_range (items d) \<Longrightarrow> list_all in_range (items (fst (sweep_loop fails now its d)))"
proof (induction its arbitrary: d)
  case Nil
  then show ?case by simp
next
  case (Cons item rest)
  obtain d' ev out where step: "checkAndFinalizeAuction fails now item d = (d', ev, out)"
    by (cases "checkAndFinalizeAuction fails now item d") auto
  then have r': "list_all in_range (items d')"
    using range_checkAndFinalizeAuction [OF Cons.prems, of fails now item] by simp
  show ?case
  proof (cases out)
    case Returned
    with step Cons.IH [OF r'] show ?thesis by (auto split: prod.splits)
  next
    case Raised
    with step r' show ?thesis by simp
  qed
qed

lemma range_bid_simple:
  assumes wf: "wf_db d" and r: "list_all in_range (items d)"
  shows "list_all in_range (items (fst (bid_simple fails now chat uid n a d)))"
proof -
  let ?res = "bid_simple fails now chat uid n a d"
  from bid_handler_all_or_nothing [OF bid_simple_through [of fails now chat uid n a d], of 0]
  consider "fst ?res = d"
    | item where "find_item_by_name n d = Some item"
        "fst ?res = d\<lparr>bids := bids d @ [\<lparr>itemId = item_id item, bid_userId = uid,
                                          amount = a, timestamp = now\<rparr>],
                     items := update_first (\<lambda>x. item_id x = item_id item)
                       (\<lambda>x. x\<lparr>highestBid := Val \<lparr>itemId = item_id item,
                              bid_userId = uid, amount = a, timestamp = now\<rparr>\<rparr>)
                       (items d)\<rparr>"
        "Send chat (BidPlaced a n) \<in> set (snd ?res)"
    by blast
  then show ?thesis
  proof cases
    case 1
    with r show ?thesis by simp
  next
    case 2
    let ?b = "\<lparr>itemId = item_id item, bid_userId = uid, amount = a, timestamp = now\<rparr>"
    have item_in: "item \<in> set (items d)"
      using 2(1) by (auto simp: find_item_by_name_def find_Some_iff)
    have bounds: "lowAmount item \<le> a \<and> a \<le> highAmount item"
      using 2(1,3) by (auto simp: bid_simple_def bid_caught_def split: if_splits)
    have dist: "distinct (map item_id (items d))" using wf by (simp add: wf_db_def)
    have "in_range y"
      if "y \<in> set (map (\<lambda>x. if item_id x = item_id item then x\<lparr>highestBid := Val ?b\<rparr> else x)
                       (items d))" for y
    proof -
      from that obtain x where x: "x \<in> set (items d)"
        and y: "y = (if item_id x = item_id item then x\<lparr>highestBid := Val ?b\<rparr> else x)"
        by auto
      show ?thesis
      proof (cases "item_id x = item_id item")
        case True
        then have "x = item" using same_id_same_item [OF dist x item_in] by simp
        with y bounds show ?thesis by (simp add: in_range_def)
      next
        case False
        with x y r show ?thesis by (simp add: list_all_iff)
      qed
    qed
    then show ?thesis
      by (simp add: 2(2) update_first_as_map [OF dist] list_all_iff)
  qed
qed

text \<open>
  Every handler but the timed /bid keeps each \<open>highestBid\<close> within the item's range.
\<close>

lemma range_exec:
  assumes "wf_db d" and "list_all in_range (items d)"
    and "\<And>chat uid n a. c \<noteq> BidTimed chat uid n a"
  shows "list_all in_range (items (fst (exec fails now c d)))"
proof (cases c)
  case (Register chat uid)
  with assms(2) show ?thesis by (simp add: register_def Let_def split: option.splits)
next
  case (CreateItem chat uid n lo hi)
  with assms(2) show ?thesis
    by (simp add: createitem_simple_def Let_def in_range_def split: option.splits)
next
  case (CreateItemTimed chat uid n lo hi mins dir)
  with assms(2) show ?thesis
    by (simp add: createitem_timed_def Let_def in_range_def split: option.splits)
next
  case (Bid chat uid n a)
  with assms(1,2) show ?thesis by (simp add: range_bid_simple)
next
  case (BidTimed chat uid n a)
  with assms(3) [of chat uid n a] show ?thesis by simp
next
  case (BiddedItemsCmd chat)
  with assms(2) show ?thesis by (simp add: biddeditems_def Let_def)
next
  case Sweep
  with assms(2) show ?thesis by (simp add: sweep_def range_sweep_loop)
qed

lemma range_run:
  assumes "wf_db d" and "list_all in_range (items d)"
    and "\<And>fails now chat uid n a. (fails, now, BidTimed chat uid n a) \<notin> set cs"
  shows "list_all in_range (items (run cs d))"
  using assms
proof (induction cs arbitrary: d)
  case Nil
  then show ?case by simp
next
  case (Cons c cs)
  obtain fails now cmd where c: "c = (fails, now, cmd)" by (cases c) auto
  have not_timed: "cmd \<noteq> BidTimed chat uid n a" for chat uid n a
    using Cons.prems(3) [of fails now chat uid n a] c by auto
  have "wf_db (fst (exec fails now cmd d))" using Cons.prems(1) by (rule wf_exec)
  moreover have "list_all in_range (items (fst (exec fails now cmd d)))"
    using Cons.prems(1,2) not_timed by (rule range_exec)
  moreover have "(fails, now, BidTimed chat uid n a) \<notin> set cs" for fails now chat uid n a
    using Cons.prems(3) [of fails now chat uid n a] by auto
  ultimately show ?case using Cons.IH c by simp
qed

text \<open>
  C1, at two failing inputs of the timed variant. On an item with range 10 to 20 and
  direction high, a bid of 1000 is accepted and becomes \<open>highestBid\<close>: only
  \<open>amount > lowAmount\<close> is checked. On an item with range 10 to 20 and direction low, a bid
  of 5 is accepted: only \<open>amount < highAmount\<close> is checked. (The /bid of \<^verbatim>\<open>index.js\<close> checks
  both bounds: by \<open>range_run\<close>, every run without the timed /bid keeps each \<open>highestBid\<close>
  within its item's range.)
\<close>

theorem bid_timed_accepts_out_of_range:
  "map (\<lambda>x. (lowAmount x, highAmount x, highestBid x))
     (items (run [(no_faults, 0, Register 1 1),
                  (no_faults, 0, CreateItemTimed 1 1 ''lamp'' 10 20 1 High),
                  (no_faults, 5, BidTimed 1 1 ''lamp'' 1000)] empty_db)) =
     [(10, 20, Val \<lparr>itemId = 0, bid_userId = 1, amount = 1000, timestamp = 5\<rparr>)]
   \<and> map (\<lambda>x. (lowAmount x, highAmount x, highestBid x))
     (items (run [(no_faults, 0, Register 1 1),
                  (no_faults, 0, CreateItemTimed 1 1 ''vase'' 10 20 1 Low),
                  (no_faults, 5, BidTimed 1 1 ''vase'' 5)] empty_db)) =
     [(10, 20, Val \<lparr>itemId = 0, bid_userId = 1, amount = 5, timestamp = 5\<rparr>)]"
  by (simp add: handler_defs)

end
